theory Spec2Isabelle
  imports Complex_Main
begin

section \<open>Numbers, vectors, boxes and strings\<close>

text \<open>
  \<^verbatim>\<open>src/main.js\<close> holds two scripts, one after the other. Lines 1-158 are the lane
  script: a player cube that switches lanes on the arrow keys, obstacles that move towards
  it, one loop that moves, tests and removes them. Lines 159-728 are the themed script:
  obstacle themes, per-type collision rules, a spawn interval that shrinks with distance.
  Both declare \<^verbatim>\<open>isGameOver\<close>, \<^verbatim>\<open>obstacles\<close>, \<^verbatim>\<open>spawnObstacle\<close>, \<^verbatim>\<open>animate\<close>;
  the names of the lane script carry the suffix 1 here and those of the themed script the
  suffix 2 where they would clash.

  JavaScript numbers are modelled as real numbers. Positions and random draws are computed
  exactly. The spawn gate of the themed script (lines 477-482) compares two computed
  numbers, and which way the comparison goes depends on the rounding of the doubles; the
  gate and the distance it reads (line 406) are computed as IEEE 754 does, every operation
  rounding its result (subsection on doubles below).
\<close>

text \<open>A result of \<^verbatim>\<open>Math.random()\<close>: a number from 0 (included) up to 1 (excluded).\<close>

typedef rnd = "{r::real. 0 \<le> r \<and> r < 1}"
  by (rule exI [of _ 0]) simp

setup_lifting type_definition_rnd

text \<open>
  \<^verbatim>\<open>Math.floor(Math.random() * n)\<close>. For a positive \<open>n\<close> it is below \<open>n\<close> (lemma
  \<open>random_index_less\<close>), so the arrays that the scripts index with it are read in range.
\<close>

definition random_index :: "rnd \<Rightarrow> nat \<Rightarrow> nat" where
  "random_index r n = nat \<lfloor>Rep_rnd r * real n\<rfloor>"

record vec3 =
  vx :: real
  vy :: real
  vz :: real

record box3 =
  bmin :: vec3
  bmax :: vec3

text \<open>\<^verbatim>\<open>Box3.intersectsBox\<close>, lines 609-613.\<close>

definition intersectsBox :: "box3 \<Rightarrow> box3 \<Rightarrow> bool" where
  "intersectsBox a b =
     ((vx (bmax a) \<ge> vx (bmin b) \<and> vx (bmin a) \<le> vx (bmax b)) \<and>
      (vy (bmax a) \<ge> vy (bmin b) \<and> vy (bmin a) \<le> vy (bmax b)) \<and>
      (vz (bmax a) \<ge> vz (bmin b) \<and> vz (bmin a) \<le> vz (bmax b)))"

text \<open>
  \<^verbatim>\<open>String.prototype.toLowerCase\<close> on the letters A to Z; every other character is kept.
  The type strings of the script are its ASCII file names.
\<close>

definition lower_char :: "char \<Rightarrow> char" where
  "lower_char c =
     (if (65::nat) \<le> of_char c \<and> of_char c \<le> (90::nat)
      then char_of (of_char c + (32::nat)) else c)"

definition toLowerCase :: "string \<Rightarrow> string" where
  "toLowerCase s = map lower_char s"

fun starts_with :: "string \<Rightarrow> string \<Rightarrow> bool" where
  "starts_with s [] = True"
| "starts_with [] (c # t) = False"
| "starts_with (d # s) (c # t) = (d = c \<and> starts_with s t)"

text \<open>\<^verbatim>\<open>String.prototype.includes\<close>: the second string occurs somewhere in the first.\<close>

fun includes_str :: "string \<Rightarrow> string \<Rightarrow> bool" where
  "includes_str [] t = (t = [])"
| "includes_str (d # s) t = (starts_with (d # s) t \<or> includes_str s t)"

text \<open>\<^verbatim>\<open>Math.PI\<close> is the double nearest to the number pi.\<close>

definition Math_PI :: real where
  "Math_PI = 884279719003555 / 281474976710656"

subsection \<open>Doubles\<close>

text \<open>
  A double is a real number \<open>m * 2 ^ e\<close> with an integer \<open>m\<close> of at most 53 bits and
  \<open>e\<close> from -1074 up. \<open>pow2 e\<close> is the power of two with an integer exponent;
  \<open>binade n e a\<close> looks, in at most \<open>n\<close> steps from \<open>e\<close>, for the exponent with
  \<open>2 ^ e \<le> a < 2 ^ (e + 1)\<close>, and stops at -1022, where the subnormal doubles begin.
\<close>

definition pow2 :: "int \<Rightarrow> real" where
  "pow2 e = (if 0 \<le> e then 2 ^ nat e else 1 / 2 ^ nat (- e))"

fun binade :: "nat \<Rightarrow> int \<Rightarrow> real \<Rightarrow> int" where
  "binade n e a =
     (if n = 0 then e
      else if pow2 (e + 1) \<le> a then binade (n - 1) (e + 1) a
      else if a < pow2 e \<and> - 1022 < e then binade (n - 1) (e - 1) a
      else e)"

declare binade.simps [simp del]

text \<open>The integer nearest to a number, the even one of the two when it lies half way.\<close>

definition round_half_even :: "real \<Rightarrow> int" where
  "round_half_even y =
     (let f = \<lfloor>y\<rfloor>; r = y - real_of_int f
      in if r < 1 / 2 then f else if 1 / 2 < r then f + 1 else if even f then f else f + 1)"

text \<open>
  \<open>fl x\<close> is the double nearest to \<open>x\<close> (round to nearest, ties to even): what a decimal
  literal of the source denotes, and what an operation on doubles returns for the exact
  result \<open>x\<close>. A double is its own nearest double. Results beyond the largest double
  (Infinity) do not occur in the computations below and are not told apart.
\<close>

definition fl :: "real \<Rightarrow> real" where
  "fl x =
     (if x = 0 then 0
      else let u = pow2 (binade 2100 0 \<bar>x\<bar> - 52)
           in real_of_int (round_half_even (x / u)) * u)"

text \<open>The operators \<^verbatim>\<open>+\<close>, \<^verbatim>\<open>-\<close>, \<^verbatim>\<open>*\<close> and \<^verbatim>\<open>/\<close> on doubles.\<close>

definition dadd :: "real \<Rightarrow> real \<Rightarrow> real" where
  "dadd a b = fl (a + b)"

definition dsub :: "real \<Rightarrow> real \<Rightarrow> real" where
  "dsub a b = fl (a - b)"

definition dmul :: "real \<Rightarrow> real \<Rightarrow> real" where
  "dmul a b = fl (a * b)"

definition ddiv :: "real \<Rightarrow> real \<Rightarrow> real" where
  "ddiv a b = fl (a / b)"

section \<open>Objects of the scene\<close>

text \<open>
  An obstacle is a JavaScript object, shared by the \<^verbatim>\<open>obstacles\<close> array and the scene.
  The array holds the obstacle's data; \<open>ident\<close> stands for the identity of the object, and
  the scene is the list of the identities of the obstacles added to it. \<open>otype\<close> is
  \<^verbatim>\<open>userData.type\<close>, \<open>None\<close> when the object has none.
\<close>

record obstacle =
  ident :: nat
  otype :: "string option"
  position :: vec3
  scale :: vec3
  rotation :: vec3

text \<open>
  What the 3D library supplies and the scripts only call: whether \<^verbatim>\<open>THREE.Box3\<close> is
  defined, and \<^verbatim>\<open>new THREE.Box3().setFromObject(o)\<close> for the player cube (from its
  position) and for an obstacle.
\<close>

record engine =
  Box3_defined :: bool
  Box3_player :: "vec3 \<Rightarrow> box3"
  Box3_obstacle :: "obstacle \<Rightarrow> box3"

datatype message =
    GameOver "string option"
  | LoadFailed string
  | ThemeEmpty string

text \<open>\<^verbatim>\<open>scene.remove(o)\<close> and \<^verbatim>\<open>obstacles.splice(i, 1)\<close>.\<close>

definition scene_remove :: "nat \<Rightarrow> nat list \<Rightarrow> nat list" where
  "scene_remove j sc = filter (\<lambda>k. k \<noteq> j) sc"

definition splice1 :: "nat \<Rightarrow> 'a list \<Rightarrow> 'a list" where
  "splice1 i xs = take i xs @ drop (Suc i) xs"

section \<open>The themed script (lines 159-728)\<close>

subsection \<open>Constants and tables\<close>

record configuration =
  cscale :: vec3
  crotation :: vec3
  positionY :: real

definition defaultConfiguration :: configuration where
  "defaultConfiguration =
     \<lparr>cscale = \<lparr>vx = 0.5, vy = 0.5, vz = 0.5\<rparr>, crotation = \<lparr>vx = 0, vy = Math_PI / 2, vz = 0\<rparr>,
      positionY = 0.5\<rparr>"

definition obstacleConfigurations :: "(string \<times> configuration) list" where
  "obstacleConfigurations =
   [(''CoveredTunnel.glb'',
       \<lparr>cscale = \<lparr>vx = 1.2, vy = 1.2, vz = 1.5\<rparr>, crotation = \<lparr>vx = 0, vy = Math_PI / 2, vz = 0\<rparr>,
        positionY = 0.6\<rparr>),
    (''TunnelBendLarge.glb'',
       \<lparr>cscale = \<lparr>vx = 1.2, vy = 1.2, vz = 1.2\<rparr>, crotation = \<lparr>vx = 0, vy = Math_PI / 2, vz = 0\<rparr>,
        positionY = 0.6\<rparr>),
    (''TunnelBendSmall.glb'',
       \<lparr>cscale = \<lparr>vx = 1.0, vy = 1.0, vz = 1.0\<rparr>, crotation = \<lparr>vx = 0, vy = Math_PI / 2, vz = 0\<rparr>,
        positionY = 0.5\<rparr>),
    (''tunnelline.glb'',
       \<lparr>cscale = \<lparr>vx = 1, vy = 1, vz = 2\<rparr>, crotation = \<lparr>vx = 0, vy = Math_PI / 2, vz = 0\<rparr>,
        positionY = 0.5\<rparr>),
    (''jump1.glb'',
       \<lparr>cscale = \<lparr>vx = 0.6, vy = 0.6, vz = 0.6\<rparr>, crotation = \<lparr>vx = 0, vy = Math_PI / 2, vz = 0\<rparr>,
        positionY = 0.1\<rparr>),
    (''jump2.glb'',
       \<lparr>cscale = \<lparr>vx = 0.6, vy = 0.6, vz = 0.6\<rparr>, crotation = \<lparr>vx = 0, vy = Math_PI / 2, vz = 0\<rparr>,
        positionY = 0.1\<rparr>),
    (''jump3.glb'',
       \<lparr>cscale = \<lparr>vx = 0.6, vy = 0.6, vz = 0.6\<rparr>, crotation = \<lparr>vx = 0, vy = Math_PI / 2, vz = 0\<rparr>,
        positionY = 0.1\<rparr>),
    (''largehoop.glb'',
       \<lparr>cscale = \<lparr>vx = 1, vy = 1, vz = 1\<rparr>, crotation = \<lparr>vx = 0, vy = 0, vz = 0\<rparr>,
        positionY = 1.0\<rparr>),
    (''smallhoop.glb'',
       \<lparr>cscale = \<lparr>vx = 0.7, vy = 0.7, vz = 0.7\<rparr>, crotation = \<lparr>vx = 0, vy = 0, vz = 0\<rparr>,
        positionY = 0.7\<rparr>),
    (''ringette_ring.glb'',
       \<lparr>cscale = \<lparr>vx = 0.8, vy = 0.2, vz = 0.8\<rparr>, crotation = \<lparr>vx = Math_PI / 2, vy = 0, vz = 0\<rparr>,
        positionY = 0.1\<rparr>),
    (''slalom.glb'',
       \<lparr>cscale = \<lparr>vx = 0.2, vy = 1.5, vz = 0.2\<rparr>, crotation = \<lparr>vx = 0, vy = Math_PI / 2, vz = 0\<rparr>,
        positionY = 0.75\<rparr>),
    (''swingboard.glb'',
       \<lparr>cscale = \<lparr>vx = 1, vy = 0.2, vz = 0.5\<rparr>, crotation = \<lparr>vx = 0, vy = Math_PI / 2, vz = 0\<rparr>,
        positionY = 0.5\<rparr>),
    (''table.glb'',
       \<lparr>cscale = \<lparr>vx = 1, vy = 0.8, vz = 0.6\<rparr>, crotation = \<lparr>vx = 0, vy = Math_PI / 2, vz = 0\<rparr>,
        positionY = 0.4\<rparr>),
    (''teeter.glb'',
       \<lparr>cscale = \<lparr>vx = 1.5, vy = 0.2, vz = 0.4\<rparr>, crotation = \<lparr>vx = 0, vy = Math_PI / 2, vz = 0.17\<rparr>,
        positionY = 0.3\<rparr>),
    (''default'', defaultConfiguration)]"

text \<open>\<^verbatim>\<open>obstacleConfigurations[name] || obstacleConfigurations['default']\<close>\<close>

definition configuration_of :: "string \<Rightarrow> configuration" where
  "configuration_of name =
     (case map_of obstacleConfigurations name of Some c \<Rightarrow> c | None \<Rightarrow> defaultConfiguration)"

definition baseSpawnInterval :: real where "baseSpawnInterval = 2.0"
definition spawnIntervalReductionFactor :: real where "spawnIntervalReductionFactor = 0.1"
definition difficultyStepDistance :: real where "difficultyStepDistance = 150"
definition minSpawnInterval :: real where "minSpawnInterval = 0.75"
definition maxObstaclesInScene :: nat where "maxObstaclesInScene = 15"
definition playerSpeed :: real where "playerSpeed = 5"
definition maxObstaclesPerTheme :: nat where "maxObstaclesPerTheme = 5"

definition lanePositions2 :: "real list" where
  "lanePositions2 = [-2.5, 0, 2.5]"

definition obstacleThemes :: "(string \<times> string list) list" where
  "obstacleThemes =
   [(''jumps'', [''jump1.glb'', ''jump2.glb'', ''jump3.glb'', ''table.glb'', ''teeter.glb'']),
    (''tunnels'', [''CoveredTunnel.glb'', ''TunnelBendLarge.glb'', ''TunnelBendSmall.glb'',
                   ''tunnelline.glb'']),
    (''hoops'', [''smallhoop.glb'', ''largehoop.glb'', ''ringette_ring.glb'']),
    (''technical'', [''slalom.glb'', ''swingboard.glb''])]"

text \<open>\<^verbatim>\<open>Object.keys(obstacleThemes)\<close>\<close>

definition themeKeys :: "string list" where
  "themeKeys = map fst obstacleThemes"

text \<open>The camera of the themed script is moved to z = 10 (line 494) before the first frame.\<close>

definition cameraZ2 :: real where "cameraZ2 = 10"

text \<open>The player cube of the themed script stays where line 274 puts it.\<close>

definition playerPosition2 :: vec3 where
  "playerPosition2 = \<lparr>vx = 0, vy = 0.25, vz = 0\<rparr>"

subsection \<open>State\<close>

text \<open>
  The globals of the script. \<open>pending2\<close> lists the file names of the model loads that
  \<^verbatim>\<open>gltfLoader.load\<close> has been asked for and that have neither succeeded nor failed yet;
  \<open>console2\<close> is what was written to the console; \<open>playerColor2\<close> is the colour of the
  player's material; \<open>nextIdent2\<close> numbers the objects that \<^verbatim>\<open>clone()\<close> creates.
\<close>

record game2 =
  isGameOver2 :: bool
  distanceCovered2 :: real
  lastSpawnTime2 :: real
  currentThemeIndex :: nat
  currentThemeName :: string
  obstaclesSpawnedInCurrentTheme :: nat
  obstacles2 :: "obstacle list"
  scene2 :: "nat list"
  loadedObstacleAssets :: "string list"
  pending2 :: "string list"
  playerColor2 :: nat
  console2 :: "message list"
  nextIdent2 :: nat

definition init2 :: game2 where
  "init2 =
     \<lparr>isGameOver2 = False, distanceCovered2 = 0, lastSpawnTime2 = 0, currentThemeIndex = 0,
      currentThemeName = themeKeys ! 0, obstaclesSpawnedInCurrentTheme = 0, obstacles2 = [],
      scene2 = [], loadedObstacleAssets = [], pending2 = [], playerColor2 = 0xff0000,
      console2 = [], nextIdent2 = 0\<rparr>"

subsection \<open>Difficulty (lines 477-480)\<close>

text \<open>
  Line 477 computes in doubles: the quotient, the product and the difference are each
  rounded, and \<^verbatim>\<open>0.1\<close> is the double nearest to one tenth. \<^verbatim>\<open>Math.floor\<close> of a double
  is a double. The argument is the value of \<^verbatim>\<open>distanceCovered\<close>, read as a double.
\<close>

definition currentSpawnInterval :: "real \<Rightarrow> real" where
  "currentSpawnInterval d =
     (let c = dsub (fl baseSpawnInterval)
                (dmul (real_of_int \<lfloor>ddiv (fl d) (fl difficultyStepDistance)\<rfloor>)
                   (fl spawnIntervalReductionFactor))
      in if c < fl minSpawnInterval then fl minSpawnInterval else c)"

subsection \<open>spawnObstacle (lines 314-394)\<close>

text \<open>Lines 316-321: the theme switch at the head of \<^verbatim>\<open>spawnObstacle\<close>.\<close>

definition switchTheme :: "game2 \<Rightarrow> game2" where
  "switchTheme s =
     (if obstaclesSpawnedInCurrentTheme s \<ge> maxObstaclesPerTheme
      then s\<lparr>currentThemeIndex := (currentThemeIndex s + 1) mod length themeKeys,
             currentThemeName := themeKeys ! ((currentThemeIndex s + 1) mod length themeKeys),
             obstaclesSpawnedInCurrentTheme := 0\<rparr>
      else s)"

text \<open>
  Lines 334-352, and the same statements in the success callback, lines 366-385: clone the
  asset, configure the clone, place it in a random lane at a random depth, tag it with its
  file name, count it, add it to the scene and to the array.
\<close>

definition placeObstacle :: "string \<Rightarrow> rnd \<Rightarrow> rnd \<Rightarrow> game2 \<Rightarrow> game2" where
  "placeObstacle name rl rz s =
     (let config = configuration_of name;
          laneX = lanePositions2 ! random_index rl (length lanePositions2);
          randomZ = - Rep_rnd rz * 50 - 20;
          loadedModel = \<lparr>ident = nextIdent2 s, otype = Some name,
                         position = \<lparr>vx = laneX, vy = positionY config, vz = randomZ\<rparr>,
                         scale = cscale config, rotation = crotation config\<rparr>
      in s\<lparr>obstaclesSpawnedInCurrentTheme := obstaclesSpawnedInCurrentTheme s + 1,
            scene2 := scene2 s @ [nextIdent2 s],
            obstacles2 := obstacles2 s @ [loadedModel],
            nextIdent2 := nextIdent2 s + 1\<rparr>)"

text \<open>
  The three random numbers are the ones \<^verbatim>\<open>Math.random()\<close> returns for the model, for the
  lane and for the depth; the last two are drawn only when the asset is in the cache.
\<close>

definition spawnObstacle2 :: "rnd \<Rightarrow> rnd \<Rightarrow> rnd \<Rightarrow> game2 \<Rightarrow> game2" where
  "spawnObstacle2 rm rl rz s =
     (let s1 = switchTheme s in
      case map_of obstacleThemes (currentThemeName s1) of
        None \<Rightarrow> s1\<lparr>console2 := console2 s1 @ [ThemeEmpty (currentThemeName s1)]\<rparr>
      | Some themeModels \<Rightarrow>
          if themeModels = []
          then s1\<lparr>console2 := console2 s1 @ [ThemeEmpty (currentThemeName s1)]\<rparr>
          else
            let randomModelFilename = themeModels ! random_index rm (length themeModels)
            in if randomModelFilename \<in> set (loadedObstacleAssets s1)
               then placeObstacle randomModelFilename rl rz s1
               else s1\<lparr>pending2 := pending2 s1 @ [randomModelFilename]\<rparr>)"

text \<open>
  The callbacks of \<^verbatim>\<open>gltfLoader.load\<close>, for the load at place \<open>k\<close> of the pending ones:
  success (lines 361-387) stores the asset in the cache and places a clone; failure
  (lines 389-391) writes to the console.
\<close>

definition loadSuccess2 :: "nat \<Rightarrow> rnd \<Rightarrow> rnd \<Rightarrow> game2 \<Rightarrow> game2" where
  "loadSuccess2 k rl rz s =
     (if k < length (pending2 s)
      then placeObstacle (pending2 s ! k) rl rz
             (s\<lparr>pending2 := splice1 k (pending2 s),
                loadedObstacleAssets := List.insert (pending2 s ! k) (loadedObstacleAssets s)\<rparr>)
      else s)"

definition loadError2 :: "nat \<Rightarrow> game2 \<Rightarrow> game2" where
  "loadError2 k s =
     (if k < length (pending2 s)
      then s\<lparr>pending2 := splice1 k (pending2 s),
             console2 := console2 s @ [LoadFailed (pending2 s ! k)]\<rparr>
      else s)"

subsection \<open>Collision rules (lines 415-464)\<close>

text \<open>\<^verbatim>\<open>obstacleType && obstacleType.toLowerCase().includes(w)\<close>\<close>

definition type_includes :: "string option \<Rightarrow> string \<Rightarrow> bool" where
  "type_includes t w =
     (case t of None \<Rightarrow> False | Some n \<Rightarrow> n \<noteq> [] \<and> includes_str (toLowerCase n) w)"

text \<open>The player's box and the obstacle's box intersect (lines 425-426, 431, 442, 451).\<close>

definition overlaps2 :: "engine \<Rightarrow> obstacle \<Rightarrow> bool" where
  "overlaps2 E ob = intersectsBox (Box3_player E playerPosition2) (Box3_obstacle E ob)"

text \<open>The value of \<^verbatim>\<open>collisionDetected\<close> at line 456.\<close>

definition collisionDetected :: "engine \<Rightarrow> obstacle \<Rightarrow> bool" where
  "collisionDetected E ob =
     (if type_includes (otype ob) ''tunnel''
      then (if overlaps2 E ob then False else False)
      else if type_includes (otype ob) ''hoop''
      then (if overlaps2 E ob then True else False)
      else (if overlaps2 E ob then True else False))"

text \<open>
  The loop of lines 415-464 over the obstacles still to visit: \<^verbatim>\<open>continue\<close> when
  \<^verbatim>\<open>THREE.Box3\<close> is undefined, \<^verbatim>\<open>break\<close> at the first collision.
\<close>

fun collisionLoop :: "engine \<Rightarrow> obstacle list \<Rightarrow> game2 \<Rightarrow> game2" where
  "collisionLoop E [] s = s"
| "collisionLoop E (ob # rest) s =
     (if \<not> Box3_defined E then collisionLoop E rest s
      else if collisionDetected E ob
      then s\<lparr>isGameOver2 := True,
             console2 := console2 s @ [GameOver (otype ob)],
             playerColor2 := 0x0000ff\<rparr>
      else collisionLoop E rest s)"

subsection \<open>Removal (lines 468-474)\<close>

definition removalZ2 :: real where
  "removalZ2 = cameraZ2 + 10"

text \<open>
  \<open>removalLoop n s\<close> is the loop from \<^verbatim>\<open>i = n - 1\<close> down to 0; the script starts it at
  the length of the array.
\<close>

fun removalLoop :: "nat \<Rightarrow> game2 \<Rightarrow> game2" where
  "removalLoop 0 s = s"
| "removalLoop (Suc i) s =
     removalLoop i
       (if vz (position (obstacles2 s ! i)) > removalZ2
        then s\<lparr>scene2 := scene_remove (ident (obstacles2 s ! i)) (scene2 s),
               obstacles2 := splice1 i (obstacles2 s)\<rparr>
        else s)"

definition removeOffscreen :: "game2 \<Rightarrow> game2" where
  "removeOffscreen s = removalLoop (length (obstacles2 s)) s"

subsection \<open>animate (lines 397-491)\<close>

text \<open>
  What a frame reads from outside: \<^verbatim>\<open>clock.getDelta()\<close>, \<^verbatim>\<open>clock.getElapsedTime()\<close>
  and the random numbers a spawn would draw. Rendering is not modelled.
\<close>

record frame2 =
  deltaTime :: real
  currentTime :: real
  rndModel :: rnd
  rndLane :: rnd
  rndDepth :: rnd

text \<open>
  Lines 476-486, the spawn gate. The difference of the two times is a subtraction of
  doubles (line 482).
\<close>

definition spawnCheck :: "frame2 \<Rightarrow> game2 \<Rightarrow> game2" where
  "spawnCheck f s =
     (if dsub (fl (currentTime f)) (fl (lastSpawnTime2 s))
           > currentSpawnInterval (distanceCovered2 s)
         \<and> length (obstacles2 s) < maxObstaclesInScene
      then (spawnObstacle2 (rndModel f) (rndLane f) (rndDepth f) s)
             \<lparr>lastSpawnTime2 := currentTime f\<rparr>
      else s)"

definition animate2 :: "engine \<Rightarrow> frame2 \<Rightarrow> game2 \<Rightarrow> game2" where
  "animate2 E f s =
     (if \<not> isGameOver2 s
      then
        let s1 = s\<lparr>distanceCovered2 :=
                      dadd (fl (distanceCovered2 s)) (dmul (fl playerSpeed) (fl (deltaTime f)))\<rparr>;
            s2 = collisionLoop E (obstacles2 s1) s1;
            s3 = removeOffscreen s2
        in spawnCheck f s3
      else s)"

subsection \<open>Runs\<close>

text \<open>
  What can happen to the page, one event at a time: a frame, or the success or the failure
  of the load at place \<open>k\<close> of the pending ones (the two random numbers of a success are
  those its callback draws for the lane and the depth). A run applies a list of events.
\<close>

datatype event2 =
    Frame2 frame2
  | LoadSuccess2 nat rnd rnd
  | LoadError2 nat

fun step2 :: "engine \<Rightarrow> event2 \<Rightarrow> game2 \<Rightarrow> game2" where
  "step2 E (Frame2 f) s = animate2 E f s"
| "step2 E (LoadSuccess2 k rl rz) s = loadSuccess2 k rl rz s"
| "step2 E (LoadError2 k) s = loadError2 k s"

fun run2 :: "engine \<Rightarrow> event2 list \<Rightarrow> game2 \<Rightarrow> game2" where
  "run2 E [] s = s"
| "run2 E (e # es) s = run2 E es (step2 E e s)"

section \<open>The lane script (lines 1-158)\<close>

subsection \<open>Constants and state\<close>

definition lanePositions1 :: "real list" where
  "lanePositions1 = [-2, 0, 2]"

definition obstacleModelFiles1 :: "string list" where
  "obstacleModelFiles1 =
     [''smallhoop.glb'', ''largehoop.glb'', ''ringette_ring.glb'', ''table.glb'', ''jump1.glb'']"

definition obstacleModelPath :: string where
  "obstacleModelPath = ''models/obstacles/''"

definition spawnZPosition :: real where "spawnZPosition = -20"

text \<open>\<^verbatim>\<open>camera.position.z + 5\<close>, with the camera at z = 5 (line 35).\<close>

definition removalZPosition :: real where "removalZPosition = 5 + 5"

definition obstacleSpeed :: real where "obstacleSpeed = 0.1"
definition spawnInterval1 :: real where "spawnInterval1 = 2000"
definition distanceFactor :: real where "distanceFactor = 0.05"

text \<open>
  The globals of the lane script. \<open>pending1\<close> lists the loads in flight, each with the
  lane index and the path its callbacks have captured.
\<close>

record game1 =
  isGameOver1 :: bool
  distanceCovered1 :: real
  lastSpawnTime1 :: real
  currentLaneIndex :: int
  playerPosition1 :: vec3
  obstacles1 :: "obstacle list"
  scene1 :: "nat list"
  pending1 :: "(nat \<times> string) list"
  playerColor1 :: nat
  console1 :: "message list"
  nextIdent1 :: nat

definition init1 :: game1 where
  "init1 =
     \<lparr>isGameOver1 = False, distanceCovered1 = 0, lastSpawnTime1 = 0, currentLaneIndex = 1,
      playerPosition1 = \<lparr>vx = lanePositions1 ! 1, vy = 0.5, vz = 0\<rparr>, obstacles1 = [],
      scene1 = [], pending1 = [], playerColor1 = 0xff0000, console1 = [], nextIdent1 = 0\<rparr>"

subsection \<open>The keydown listener (lines 58-70)\<close>

definition keydown1 :: "string \<Rightarrow> game1 \<Rightarrow> game1" where
  "keydown1 key s =
     (if isGameOver1 s then s
      else if key = ''ArrowLeft''
      then (if currentLaneIndex s > 0 then s\<lparr>currentLaneIndex := currentLaneIndex s - 1\<rparr>
            else s)
      else if key = ''ArrowRight''
      then (if currentLaneIndex s < int (length lanePositions1) - 1
            then s\<lparr>currentLaneIndex := currentLaneIndex s + 1\<rparr>
            else s)
      else s)"

subsection \<open>spawnObstacle and its callbacks (lines 72-98)\<close>

definition spawnObstacle1 :: "rnd \<Rightarrow> rnd \<Rightarrow> game1 \<Rightarrow> game1" where
  "spawnObstacle1 rl rm s =
     (let randomLaneIndex = random_index rl (length lanePositions1);
          randomModelFilename =
            obstacleModelFiles1 ! random_index rm (length obstacleModelFiles1);
          fullModelPath = obstacleModelPath @ randomModelFilename
      in s\<lparr>pending1 := pending1 s @ [(randomLaneIndex, fullModelPath)]\<rparr>)"

definition loadSuccess1 :: "nat \<Rightarrow> game1 \<Rightarrow> game1" where
  "loadSuccess1 k s =
     (if k < length (pending1 s)
      then
        let loadedModel =
              \<lparr>ident = nextIdent1 s, otype = None,
               position = \<lparr>vx = lanePositions1 ! fst (pending1 s ! k), vy = 0.5,
                           vz = spawnZPosition\<rparr>,
               scale = \<lparr>vx = 0.5, vy = 0.5, vz = 0.5\<rparr>,
               rotation = \<lparr>vx = 0, vy = Math_PI / 2, vz = 0\<rparr>\<rparr>
        in s\<lparr>pending1 := splice1 k (pending1 s),
              scene1 := scene1 s @ [nextIdent1 s],
              obstacles1 := obstacles1 s @ [loadedModel],
              nextIdent1 := nextIdent1 s + 1\<rparr>
      else s)"

definition loadError1 :: "nat \<Rightarrow> game1 \<Rightarrow> game1" where
  "loadError1 k s =
     (if k < length (pending1 s)
      then s\<lparr>pending1 := splice1 k (pending1 s),
             console1 := console1 s @ [LoadFailed (snd (pending1 s ! k))]\<rparr>
      else s)"

subsection \<open>animate (lines 100-148)\<close>

text \<open>\<^verbatim>\<open>obstacle.position.z += obstacleSpeed\<close>\<close>

definition advance :: "obstacle \<Rightarrow> obstacle" where
  "advance ob = ob\<lparr>position := (position ob)\<lparr>vz := vz (position ob) + obstacleSpeed\<rparr>\<rparr>"

text \<open>
  The loop of lines 119-140, from \<^verbatim>\<open>i = n - 1\<close> down to 0, with the player's box
  computed before it: move the obstacle, \<^verbatim>\<open>break\<close> on a collision, else remove the
  obstacle when it is behind the camera.
\<close>

fun moveLoop :: "engine \<Rightarrow> box3 \<Rightarrow> nat \<Rightarrow> game1 \<Rightarrow> game1" where
  "moveLoop E playerBoundingBox 0 s = s"
| "moveLoop E playerBoundingBox (Suc i) s =
     (let obstacle = advance (obstacles1 s ! i);
          s1 = s\<lparr>obstacles1 := (obstacles1 s)[i := obstacle]\<rparr>
      in if intersectsBox playerBoundingBox (Box3_obstacle E obstacle)
         then s1\<lparr>isGameOver1 := True,
                 console1 := console1 s1 @ [GameOver None],
                 playerColor1 := 0x0000ff\<rparr>
         else if vz (position obstacle) > removalZPosition
         then moveLoop E playerBoundingBox i
                (s1\<lparr>scene1 := scene_remove (ident obstacle) (scene1 s1),
                    obstacles1 := splice1 i (obstacles1 s1)\<rparr>)
         else moveLoop E playerBoundingBox i s1)"

text \<open>
  What a frame reads from outside: the time stamp in milliseconds and the random numbers
  a spawn would draw. The braces of lines 117-145 do not balance; the statements are
  taken in the order the indentation shows, and \<^verbatim>\<open>playerCube\<close> is always present, so
  its tests are true. The text of the distance display is not modelled.
\<close>

record frame1 =
  currentTime1 :: real
  rndLane1 :: rnd
  rndModel1 :: rnd

definition animate1 :: "engine \<Rightarrow> frame1 \<Rightarrow> game1 \<Rightarrow> game1" where
  "animate1 E f s =
     (if \<not> isGameOver1 s
      then
        let s1 = s\<lparr>playerPosition1 :=
                     (playerPosition1 s)\<lparr>vx := lanePositions1 ! nat (currentLaneIndex s)\<rparr>\<rparr>;
            s2 = (if currentTime1 f - lastSpawnTime1 s1 > spawnInterval1
                  then (spawnObstacle1 (rndLane1 f) (rndModel1 f) s1)
                         \<lparr>lastSpawnTime1 := currentTime1 f\<rparr>
                  else s1);
            playerBoundingBox = Box3_player E (playerPosition1 s2);
            s3 = moveLoop E playerBoundingBox (length (obstacles1 s2)) s2
        in s3\<lparr>distanceCovered1 := distanceCovered1 s3 + distanceFactor\<rparr>
      else s)"

subsection \<open>Runs\<close>

text \<open>The events of the lane script: a frame, a key, the success or failure of a load.\<close>

datatype event1 =
    Frame1 frame1
  | KeyDown string
  | LoadSuccess1 nat
  | LoadError1 nat

fun step1 :: "engine \<Rightarrow> event1 \<Rightarrow> game1 \<Rightarrow> game1" where
  "step1 E (Frame1 f) s = animate1 E f s"
| "step1 E (KeyDown key) s = keydown1 key s"
| "step1 E (LoadSuccess1 k) s = loadSuccess1 k s"
| "step1 E (LoadError1 k) s = loadError1 k s"

fun run1 :: "engine \<Rightarrow> event1 list \<Rightarrow> game1 \<Rightarrow> game1" where
  "run1 E [] s = s"
| "run1 E (e # es) s = run1 E es (step1 E e s)"

section \<open>Sample inputs\<close>

text \<open>
  An engine whose boxes are cubes around the position of the object, as the fallback of
  lines 599-601 builds them: half side \<open>hp\<close> for the player, \<open>ho\<close> for an obstacle.
\<close>

definition boxAround :: "real \<Rightarrow> vec3 \<Rightarrow> box3" where
  "boxAround h p =
     \<lparr>bmin = \<lparr>vx = vx p - h, vy = vy p - h, vz = vz p - h\<rparr>,
      bmax = \<lparr>vx = vx p + h, vy = vy p + h, vz = vz p + h\<rparr>\<rparr>"

definition cubeEngine :: "real \<Rightarrow> real \<Rightarrow> engine" where
  "cubeEngine hp ho =
     \<lparr>Box3_defined = True, Box3_player = boxAround hp,
      Box3_obstacle = (\<lambda>ob. boxAround ho (position ob))\<rparr>"

lift_definition rnd0 :: rnd is "0"
  by simp

lift_definition rndHalf :: rnd is "1 / 2"
  by simp

definition sampleObstacle :: "nat \<Rightarrow> string \<Rightarrow> real \<Rightarrow> real \<Rightarrow> obstacle" where
  "sampleObstacle j name x z =
     \<lparr>ident = j, otype = Some name,
      position = \<lparr>vx = x, vy = positionY (configuration_of name), vz = z\<rparr>,
      scale = cscale (configuration_of name), rotation = crotation (configuration_of name)\<rparr>"

lift_definition rndLow :: rnd is "3 / 10"
  by simp

definition sampleFrame2 :: "real \<Rightarrow> real \<Rightarrow> rnd \<Rightarrow> frame2" where
  "sampleFrame2 dt t rm =
     \<lparr>deltaTime = dt, currentTime = t, rndModel = rm, rndLane = rndHalf, rndDepth = rnd0\<rparr>"

definition tunnelAtPlayer :: obstacle where
  "tunnelAtPlayer = sampleObstacle 0 ''CoveredTunnel.glb'' 0 0"

definition hoopAtPlayer :: obstacle where
  "hoopAtPlayer = sampleObstacle 1 ''smallhoop.glb'' 0 0"

definition tableAtPlayer :: obstacle where
  "tableAtPlayer = sampleObstacle 2 ''table.glb'' 0 0"

definition hoopAhead :: obstacle where
  "hoopAhead = sampleObstacle 3 ''largehoop.glb'' 2.5 (-30)"

text \<open>Sample states: an obstacle one frame away from the player, and the frame that hits it.\<close>

definition sampleObstacle1 :: "nat \<Rightarrow> real \<Rightarrow> real \<Rightarrow> obstacle" where
  "sampleObstacle1 j x z =
     \<lparr>ident = j, otype = None, position = \<lparr>vx = x, vy = 0.5, vz = z\<rparr>,
      scale = \<lparr>vx = 0.5, vy = 0.5, vz = 0.5\<rparr>, rotation = \<lparr>vx = 0, vy = Math_PI / 2, vz = 0\<rparr>\<rparr>"

definition sampleFrame1 :: "real \<Rightarrow> frame1" where
  "sampleFrame1 t = \<lparr>currentTime1 = t, rndLane1 = rndHalf, rndModel1 = rnd0\<rparr>"

definition nearState1 :: game1 where
  "nearState1 = init1\<lparr>obstacles1 := [sampleObstacle1 0 (-2) (-5), sampleObstacle1 1 0 (-0.8)],
                      scene1 := [0, 1], nextIdent1 := 2\<rparr>"

definition collided1 :: game1 where
  "collided1 = animate1 (cubeEngine 0.5 0.25) (sampleFrame1 1000) nearState1"

definition nearState2 :: game2 where
  "nearState2 = init2\<lparr>obstacles2 := [hoopAhead, tableAtPlayer], scene2 := [3, 2],
                      nextIdent2 := 4, pending2 := [''jump1.glb'']\<rparr>"

definition collided2 :: game2 where
  "collided2 = animate2 (cubeEngine 0.25 0.25) (sampleFrame2 0.016 1 rnd0) nearState2"

section \<open>Notions used in the statements\<close>

text \<open>
  Notions used to state what the loop of the lane script does: an obstacle is kept when it
  is not behind the removal line; the player's box of a frame (line 118, after the snap of
  line 106); an obstacle hits when, once moved, its box intersects the player's.
\<close>

definition keep1 :: "obstacle \<Rightarrow> bool" where
  "keep1 ob = (\<not> vz (position ob) > removalZPosition)"

definition playerBox1 :: "engine \<Rightarrow> game1 \<Rightarrow> box3" where
  "playerBox1 E s =
     Box3_player E ((playerPosition1 s)\<lparr>vx := lanePositions1 ! nat (currentLaneIndex s)\<rparr>)"

definition hits1 :: "engine \<Rightarrow> game1 \<Rightarrow> obstacle \<Rightarrow> bool" where
  "hits1 E s ob = intersectsBox (playerBox1 E s) (Box3_obstacle E (advance ob))"

definition farState1 :: game1 where
  "farState1 = init1\<lparr>obstacles1 := [sampleObstacle1 0 (-2) 9.95, sampleObstacle1 1 2 (-5)],
                     scene1 := [0, 1], nextIdent1 := 2\<rparr>"

definition farState2 :: game2 where
  "farState2 = init2\<lparr>obstacles2 := [sampleObstacle 0 ''table.glb'' 2.5 25, hoopAhead],
                     scene2 := [0, 3], nextIdent2 := 4\<rparr>"

text \<open>The state of a frame of the lane script when its loop starts (lines 104-118).\<close>

definition beforeLoop1 :: "frame1 \<Rightarrow> game1 \<Rightarrow> game1" where
  "beforeLoop1 f s =
     (let s1 = s\<lparr>playerPosition1 :=
                  (playerPosition1 s)\<lparr>vx := lanePositions1 ! nat (currentLaneIndex s)\<rparr>\<rparr>
      in if currentTime1 f - lastSpawnTime1 s1 > spawnInterval1
         then (spawnObstacle1 (rndLane1 f) (rndModel1 f) s1)\<lparr>lastSpawnTime1 := currentTime1 f\<rparr>
         else s1)"

text \<open>
  Where \<^verbatim>\<open>spawnObstacle\<close> puts an obstacle: in the themed script in one of the lanes, at
  the height of the configuration of its type, at a depth from -70 to -20; in the lane
  script in one of the lanes at height 0.5. Two obstacles are the same object in the same
  lane when they agree on identity, x and y.
\<close>

definition placed2 :: "obstacle \<Rightarrow> bool" where
  "placed2 b =
     (vx (position b) \<in> set lanePositions2 \<and>
      (case otype b of None \<Rightarrow> False
       | Some name \<Rightarrow> vy (position b) = positionY (configuration_of name)) \<and>
      - 70 \<le> vz (position b) \<and> vz (position b) \<le> - 20)"

definition placed1 :: "obstacle \<Rightarrow> bool" where
  "placed1 b = (vx (position b) \<in> set lanePositions1 \<and> vy (position b) = 0.5)"

definition same_lane :: "obstacle \<Rightarrow> obstacle \<Rightarrow> bool" where
  "same_lane b c =
     (ident c = ident b \<and> vx (position c) = vx (position b) \<and> vy (position c) = vy (position b))"

text \<open>The identities of the live obstacles are distinct and already handed out.\<close>

definition idents_ok :: "obstacle list \<Rightarrow> nat \<Rightarrow> bool" where
  "idents_ok obs next = (distinct (map ident obs) \<and> list_all (\<lambda>b. ident b < next) obs)"

text \<open>What holds of the obstacles in every state a script reaches.\<close>

definition inv2 :: "game2 \<Rightarrow> bool" where
  "inv2 s = ((\<forall>b\<in>set (obstacles2 s). placed2 b) \<and> idents_ok (obstacles2 s) (nextIdent2 s))"

definition inv1 :: "game1 \<Rightarrow> bool" where
  "inv1 s = ((\<forall>b\<in>set (obstacles1 s). placed1 b) \<and> idents_ok (obstacles1 s) (nextIdent1 s) \<and>
             (\<forall>q\<in>set (pending1 s). fst q < length lanePositions1))"

text \<open>
  Notions used to state the rotation of themes: the theme name is the key at the theme
  index; the models of the theme at an index; an obstacle whose type is a model of that
  theme; a spawn that is completed before anything else happens (the asset was cached, or
  the load just issued succeeds at once); a series of such spawns.
\<close>

definition theme_ok :: "game2 \<Rightarrow> bool" where
  "theme_ok s =
     (currentThemeIndex s < length themeKeys \<and>
      currentThemeName s = themeKeys ! currentThemeIndex s)"

definition themeModelsOf :: "nat \<Rightarrow> string list" where
  "themeModelsOf i = snd (obstacleThemes ! i)"

definition of_theme :: "nat \<Rightarrow> obstacle \<Rightarrow> bool" where
  "of_theme i b = (case otype b of None \<Rightarrow> False | Some name \<Rightarrow> name \<in> set (themeModelsOf i))"

definition spawnCompleted :: "rnd \<Rightarrow> rnd \<Rightarrow> rnd \<Rightarrow> game2 \<Rightarrow> game2" where
  "spawnCompleted rm rl rz s =
     (let s' = spawnObstacle2 rm rl rz s
      in if length (pending2 s') > length (pending2 s)
         then loadSuccess2 (length (pending2 s)) rl rz s'
         else s')"

fun spawnsCompleted :: "(rnd \<times> rnd \<times> rnd) list \<Rightarrow> game2 \<Rightarrow> game2" where
  "spawnsCompleted [] s = s"
| "spawnsCompleted ((rm, rl, rz) # rs) s = spawnsCompleted rs (spawnCompleted rm rl rz s)"

text \<open>
  Sample runs from the start of the themed script. In the first, four spawns are counted,
  then two frames each ask for a model that is still loading, then both loads succeed.
  In the second, five spawns are counted, then a frame asks for a model of the next
  theme and the load fails.
\<close>

definition raceEvents :: "event2 list" where
  "raceEvents =
     [Frame2 (sampleFrame2 3 3 rnd0), LoadSuccess2 0 rndHalf rnd0,
      Frame2 (sampleFrame2 3 6 rnd0), Frame2 (sampleFrame2 3 9 rnd0),
      Frame2 (sampleFrame2 3 12 rnd0),
      Frame2 (sampleFrame2 3 15 rndLow), Frame2 (sampleFrame2 3 18 rndLow),
      LoadSuccess2 0 rndHalf rnd0, LoadSuccess2 0 rndHalf rnd0]"

definition fiveSpawns :: "event2 list" where
  "fiveSpawns =
     [Frame2 (sampleFrame2 3 3 rnd0), LoadSuccess2 0 rndHalf rnd0,
      Frame2 (sampleFrame2 3 6 rnd0), Frame2 (sampleFrame2 3 9 rnd0),
      Frame2 (sampleFrame2 3 12 rnd0), Frame2 (sampleFrame2 3 15 rnd0)]"

definition failedSpawn :: "event2 list" where
  "failedSpawn = [Frame2 (sampleFrame2 3 18 rnd0), LoadError2 0]"

text \<open>
  An engine in which an obstacle that intersects the player cube (which stays at height
  0.5 and depth 0) is not beyond the removal line of the lane script; and the property of
  a state of the lane script that no live obstacle is beyond that line.
\<close>

definition sane_engine :: "engine \<Rightarrow> bool" where
  "sane_engine E =
     (\<forall>x b. intersectsBox (Box3_player E \<lparr>vx = x, vy = 0.5, vz = 0\<rparr>) (Box3_obstacle E b) \<longrightarrow>
            vz (position b) \<le> removalZPosition)"

definition within1 :: "game1 \<Rightarrow> bool" where
  "within1 s =
     ((\<forall>b\<in>set (obstacles1 s). vz (position b) \<le> removalZPosition) \<and>
      vy (playerPosition1 s) = 0.5 \<and> vz (playerPosition1 s) = 0)"

section \<open>Lemmas\<close>

lemmas constants2 =
  baseSpawnInterval_def spawnIntervalReductionFactor_def difficultyStepDistance_def
  minSpawnInterval_def maxObstaclesInScene_def playerSpeed_def maxObstaclesPerTheme_def
  lanePositions2_def obstacleThemes_def themeKeys_def cameraZ2_def playerPosition2_def
  removalZ2_def

lemmas samples =
  sampleFrame2_def sampleObstacle_def cubeEngine_def boxAround_def rnd0.rep_eq rndHalf.rep_eq
  rndLow.rep_eq tunnelAtPlayer_def hoopAtPlayer_def tableAtPlayer_def hoopAhead_def

text \<open>
  Rules that evaluate the operations on doubles at given numbers: each one applies only
  once its conditions have been decided.
\<close>

lemma binade_up:
  "n \<noteq> 0 \<Longrightarrow> pow2 (e + 1) \<le> a \<Longrightarrow> binade n e a = binade (n - 1) (e + 1) a"
  by (subst binade.simps) simp

lemma binade_down:
  "n \<noteq> 0 \<Longrightarrow> \<not> pow2 (e + 1) \<le> a \<Longrightarrow> a < pow2 e \<Longrightarrow> - 1022 < e \<Longrightarrow>
   binade n e a = binade (n - 1) (e - 1) a"
  by (subst binade.simps) simp

lemma binade_stop:
  "n \<noteq> 0 \<Longrightarrow> \<not> pow2 (e + 1) \<le> a \<Longrightarrow> \<not> (a < pow2 e \<and> - 1022 < e) \<Longrightarrow>
   binade n e a = e"
  by (subst binade.simps) auto

lemma fl_zero: "fl 0 = 0"
  by (simp add: fl_def)

lemma fl_nonzero:
  "x \<noteq> 0 \<Longrightarrow>
   fl x = real_of_int (round_half_even (x / pow2 (binade 2100 0 \<bar>x\<bar> - 52))) *
          pow2 (binade 2100 0 \<bar>x\<bar> - 52)"
  by (simp add: fl_def Let_def)

lemmas double_unfold =
  dadd_def dsub_def dmul_def ddiv_def fl_zero fl_nonzero pow2_def round_half_even_def
  binade_up binade_down binade_stop

lemmas frame2_unfold =
  animate2_def spawnCheck_def spawnObstacle2_def switchTheme_def placeObstacle_def
  loadSuccess2_def loadError2_def removeOffscreen_def currentSpawnInterval_def init2_def
  splice1_def scene_remove_def random_index_def Let_def double_unfold

subsection \<open>The collision loop of the themed script\<close>

lemma collisionLoop_find:
  "Box3_defined E \<Longrightarrow>
   collisionLoop E obs s =
     (case List.find (collisionDetected E) obs of
        None \<Rightarrow> s
      | Some ob \<Rightarrow> s\<lparr>isGameOver2 := True, console2 := console2 s @ [GameOver (otype ob)],
                      playerColor2 := 0x0000ff\<rparr>)"
  by (induction obs) auto

lemma collisionLoop_undefined: "\<not> Box3_defined E \<Longrightarrow> collisionLoop E obs s = s"
  by (induction obs) auto

lemma collisionLoop_isGameOver:
  "Box3_defined E \<Longrightarrow>
   isGameOver2 (collisionLoop E obs s) = (isGameOver2 s \<or> (\<exists>ob\<in>set obs. collisionDetected E ob))"
  by (induction obs) auto

lemma collisionLoop_kept:
  "distanceCovered2 (collisionLoop E obs s) = distanceCovered2 s \<and>
   lastSpawnTime2 (collisionLoop E obs s) = lastSpawnTime2 s \<and>
   currentThemeIndex (collisionLoop E obs s) = currentThemeIndex s \<and>
   currentThemeName (collisionLoop E obs s) = currentThemeName s \<and>
   obstaclesSpawnedInCurrentTheme (collisionLoop E obs s) = obstaclesSpawnedInCurrentTheme s \<and>
   obstacles2 (collisionLoop E obs s) = obstacles2 s \<and>
   scene2 (collisionLoop E obs s) = scene2 s \<and>
   loadedObstacleAssets (collisionLoop E obs s) = loadedObstacleAssets s \<and>
   pending2 (collisionLoop E obs s) = pending2 s \<and>
   nextIdent2 (collisionLoop E obs s) = nextIdent2 s"
  by (induction obs) auto

lemma collisionDetected_iff:
  "collisionDetected E ob = (overlaps2 E ob \<and> \<not> type_includes (otype ob) ''tunnel'')"
  by (simp add: collisionDetected_def)

subsection \<open>The removal loop of the themed script\<close>

lemma removalLoop_obstacles:
  "n \<le> length (obstacles2 s) \<Longrightarrow>
   obstacles2 (removalLoop n s) =
     filter (\<lambda>ob. \<not> vz (position ob) > removalZ2) (take n (obstacles2 s)) @
     drop n (obstacles2 s)"
proof (induction n arbitrary: s)
  case 0
  then show ?case by simp
next
  case (Suc n)
  let ?obs = "obstacles2 s"
  from Suc.prems have n: "n < length ?obs" by simp
  show ?case
  proof (cases "vz (position (?obs ! n)) > removalZ2")
    case True
    let ?s' = "s\<lparr>scene2 := scene_remove (ident (?obs ! n)) (scene2 s),
                  obstacles2 := splice1 n ?obs\<rparr>"
    have len: "n \<le> length (obstacles2 ?s')" using n by (simp add: splice1_def)
    have tk: "take n (splice1 n ?obs) = take n ?obs" using n by (simp add: splice1_def)
    have dr: "drop n (splice1 n ?obs) = drop (Suc n) ?obs" using n by (simp add: splice1_def)
    have "obstacles2 (removalLoop (Suc n) s) = obstacles2 (removalLoop n ?s')"
      using True by simp
    also have "\<dots> = filter (\<lambda>ob. \<not> vz (position ob) > removalZ2) (take n ?obs) @
                      drop (Suc n) ?obs"
      using Suc.IH [OF len] tk dr by simp
    finally show ?thesis using True n by (simp add: take_Suc_conv_app_nth)
  next
    case False
    have "obstacles2 (removalLoop (Suc n) s) = obstacles2 (removalLoop n s)"
      using False by simp
    also have "\<dots> = filter (\<lambda>ob. \<not> vz (position ob) > removalZ2) (take n ?obs) @ drop n ?obs"
      using Suc.IH [of s] n by simp
    finally show ?thesis using False n
      by (simp add: take_Suc_conv_app_nth Cons_nth_drop_Suc)
  qed
qed

lemma removalLoop_scene:
  "n \<le> length (obstacles2 s) \<Longrightarrow>
   scene2 (removalLoop n s) =
     filter (\<lambda>j. j \<notin> ident ` {ob \<in> set (take n (obstacles2 s)). vz (position ob) > removalZ2})
       (scene2 s)"
proof (induction n arbitrary: s)
  case 0
  then show ?case by simp
next
  case (Suc n)
  let ?obs = "obstacles2 s"
  from Suc.prems have n: "n < length ?obs" by simp
  have tkS: "set (take (Suc n) ?obs) = insert (?obs ! n) (set (take n ?obs))"
    using n by (simp add: take_Suc_conv_app_nth)
  show ?case
  proof (cases "vz (position (?obs ! n)) > removalZ2")
    case True
    let ?s' = "s\<lparr>scene2 := scene_remove (ident (?obs ! n)) (scene2 s),
                  obstacles2 := splice1 n ?obs\<rparr>"
    have len: "n \<le> length (obstacles2 ?s')" using n by (simp add: splice1_def)
    have tk: "take n (splice1 n ?obs) = take n ?obs" using n by (simp add: splice1_def)
    have "scene2 (removalLoop (Suc n) s) = scene2 (removalLoop n ?s')"
      using True by simp
    also have "\<dots> = filter (\<lambda>j. j \<notin> ident ` {ob \<in> set (take n ?obs).
                                                vz (position ob) > removalZ2})
                        (scene_remove (ident (?obs ! n)) (scene2 s))"
      using Suc.IH [OF len] tk by simp
    finally show ?thesis using True tkS
      by (auto simp: scene_remove_def intro!: filter_cong)
  next
    case False
    have "scene2 (removalLoop (Suc n) s) = scene2 (removalLoop n s)"
      using False by simp
    also have "\<dots> = filter (\<lambda>j. j \<notin> ident ` {ob \<in> set (take n ?obs).
                                                vz (position ob) > removalZ2})
                        (scene2 s)"
      using Suc.IH [of s] n by simp
    finally show ?thesis using False tkS
      by (auto intro!: filter_cong)
  qed
qed

lemma removalLoop_kept:
  "isGameOver2 (removalLoop n s) = isGameOver2 s \<and>
   distanceCovered2 (removalLoop n s) = distanceCovered2 s \<and>
   lastSpawnTime2 (removalLoop n s) = lastSpawnTime2 s \<and>
   currentThemeIndex (removalLoop n s) = currentThemeIndex s \<and>
   currentThemeName (removalLoop n s) = currentThemeName s \<and>
   obstaclesSpawnedInCurrentTheme (removalLoop n s) = obstaclesSpawnedInCurrentTheme s \<and>
   loadedObstacleAssets (removalLoop n s) = loadedObstacleAssets s \<and>
   pending2 (removalLoop n s) = pending2 s \<and>
   playerColor2 (removalLoop n s) = playerColor2 s \<and>
   console2 (removalLoop n s) = console2 s \<and>
   nextIdent2 (removalLoop n s) = nextIdent2 s"
  by (induction n arbitrary: s) auto

lemma spawnObstacle2_isGameOver:
  "isGameOver2 (spawnObstacle2 rm rl rz s) = isGameOver2 s"
  by (simp add: spawnObstacle2_def switchTheme_def placeObstacle_def Let_def
      split: option.split)

lemma spawnCheck_isGameOver: "isGameOver2 (spawnCheck f s) = isGameOver2 s"
  by (simp add: spawnCheck_def spawnObstacle2_isGameOver)

lemma animate2_isGameOver:
  "Box3_defined E \<Longrightarrow>
   isGameOver2 (animate2 E f s) =
     (isGameOver2 s \<or> (\<exists>ob\<in>set (obstacles2 s). collisionDetected E ob))"
  by (simp add: animate2_def Let_def spawnCheck_isGameOver removeOffscreen_def
      removalLoop_kept collisionLoop_isGameOver)

lemma catalog_types_unambiguous:
  "\<forall>n\<in>set (concat (map snd obstacleThemes)).
     \<not> (type_includes (Some n) ''tunnel'' \<and> type_includes (Some n) ''hoop'')"
  by code_simp

lemma sample_types:
  "type_includes (Some ''CoveredTunnel.glb'') ''tunnel''"
  "\<not> type_includes (Some ''smallhoop.glb'') ''tunnel''"
  "type_includes (Some ''smallhoop.glb'') ''hoop''"
  "\<not> type_includes (Some ''largehoop.glb'') ''tunnel''"
  "\<not> type_includes (Some ''table.glb'') ''tunnel''"
  "\<not> type_includes (Some ''table.glb'') ''hoop''"
  by code_simp+

lemma sample_configurations:
  "positionY (configuration_of ''CoveredTunnel.glb'') = 0.6"
  "positionY (configuration_of ''smallhoop.glb'') = 0.7"
  "positionY (configuration_of ''largehoop.glb'') = 1.0"
  "positionY (configuration_of ''table.glb'') = 0.4"
  "positionY (configuration_of ''jump1.glb'') = 0.1"
  "positionY (configuration_of ''jump2.glb'') = 0.1"
  by (simp_all add: configuration_of_def obstacleConfigurations_def)

subsection \<open>After the game is over\<close>

lemma animate2_over: "isGameOver2 s \<Longrightarrow> animate2 E f s = s"
  by (simp add: animate2_def)

lemma step2_frozen:
  assumes "isGameOver2 s"
  shows "isGameOver2 (step2 E e s) \<and>
         distanceCovered2 (step2 E e s) = distanceCovered2 s \<and>
         lastSpawnTime2 (step2 E e s) = lastSpawnTime2 s \<and>
         (\<exists>new. obstacles2 (step2 E e s) = obstacles2 s @ new) \<and>
         length (pending2 (step2 E e s)) \<le> length (pending2 s)"
proof (cases e)
  case (Frame2 f)
  then show ?thesis using assms by (simp add: animate2_over)
next
  case (LoadSuccess2 k rl rz)
  then show ?thesis using assms
    by (simp add: loadSuccess2_def placeObstacle_def Let_def splice1_def)
next
  case (LoadError2 k)
  then show ?thesis using assms by (simp add: loadError2_def splice1_def)
qed

lemma run2_frozen:
  "isGameOver2 s \<Longrightarrow>
   isGameOver2 (run2 E es s) \<and>
   distanceCovered2 (run2 E es s) = distanceCovered2 s \<and>
   lastSpawnTime2 (run2 E es s) = lastSpawnTime2 s \<and>
   (\<exists>new. obstacles2 (run2 E es s) = obstacles2 s @ new) \<and>
   length (pending2 (run2 E es s)) \<le> length (pending2 s)"
proof (induction es arbitrary: s)
  case Nil
  then show ?case by simp
next
  case (Cons e es)
  let ?s' = "step2 E e s"
  from step2_frozen [OF Cons.prems, of E e] have
    g: "isGameOver2 ?s'" and d: "distanceCovered2 ?s' = distanceCovered2 s"
    and l: "lastSpawnTime2 ?s' = lastSpawnTime2 s"
    and t: "\<exists>new. obstacles2 ?s' = obstacles2 s @ new"
    and p: "length (pending2 ?s') \<le> length (pending2 s)"
    by simp_all
  from Cons.IH [OF g] have
    ih: "isGameOver2 (run2 E es ?s')" "distanceCovered2 (run2 E es ?s') = distanceCovered2 ?s'"
      "lastSpawnTime2 (run2 E es ?s') = lastSpawnTime2 ?s'"
      "\<exists>new. obstacles2 (run2 E es ?s') = obstacles2 ?s' @ new"
      "length (pending2 (run2 E es ?s')) \<le> length (pending2 ?s')"
    by simp_all
  have "\<exists>new. obstacles2 (run2 E es ?s') = obstacles2 s @ new"
    using ih(4) t by auto
  then show ?case using ih d l p by simp
qed

lemma animate1_over: "isGameOver1 s \<Longrightarrow> animate1 E f s = s"
  by (simp add: animate1_def)

lemma keydown1_over: "isGameOver1 s \<Longrightarrow> keydown1 key s = s"
  by (simp add: keydown1_def)

lemma step1_frozen:
  assumes "isGameOver1 s"
  shows "isGameOver1 (step1 E e s) \<and>
         currentLaneIndex (step1 E e s) = currentLaneIndex s \<and>
         distanceCovered1 (step1 E e s) = distanceCovered1 s \<and>
         lastSpawnTime1 (step1 E e s) = lastSpawnTime1 s \<and>
         (\<exists>new. obstacles1 (step1 E e s) = obstacles1 s @ new) \<and>
         length (pending1 (step1 E e s)) \<le> length (pending1 s)"
proof (cases e)
  case (Frame1 f)
  then show ?thesis using assms by (simp add: animate1_over)
next
  case (KeyDown key)
  then show ?thesis using assms by (simp add: keydown1_over)
next
  case (LoadSuccess1 k)
  then show ?thesis using assms by (simp add: loadSuccess1_def Let_def splice1_def)
next
  case (LoadError1 k)
  then show ?thesis using assms by (simp add: loadError1_def splice1_def)
qed

lemma run1_frozen:
  "isGameOver1 s \<Longrightarrow>
   isGameOver1 (run1 E es s) \<and>
   currentLaneIndex (run1 E es s) = currentLaneIndex s \<and>
   distanceCovered1 (run1 E es s) = distanceCovered1 s \<and>
   lastSpawnTime1 (run1 E es s) = lastSpawnTime1 s \<and>
   (\<exists>new. obstacles1 (run1 E es s) = obstacles1 s @ new) \<and>
   length (pending1 (run1 E es s)) \<le> length (pending1 s)"
proof (induction es arbitrary: s)
  case Nil
  then show ?case by simp
next
  case (Cons e es)
  let ?s' = "step1 E e s"
  from step1_frozen [OF Cons.prems, of E e] have
    g: "isGameOver1 ?s'" and c: "currentLaneIndex ?s' = currentLaneIndex s"
    and d: "distanceCovered1 ?s' = distanceCovered1 s"
    and l: "lastSpawnTime1 ?s' = lastSpawnTime1 s"
    and t: "\<exists>new. obstacles1 ?s' = obstacles1 s @ new"
    and p: "length (pending1 ?s') \<le> length (pending1 s)"
    by simp_all
  from Cons.IH [OF g] have
    ih: "isGameOver1 (run1 E es ?s')" "currentLaneIndex (run1 E es ?s') = currentLaneIndex ?s'"
      "distanceCovered1 (run1 E es ?s') = distanceCovered1 ?s'"
      "lastSpawnTime1 (run1 E es ?s') = lastSpawnTime1 ?s'"
      "\<exists>new. obstacles1 (run1 E es ?s') = obstacles1 ?s' @ new"
      "length (pending1 (run1 E es ?s')) \<le> length (pending1 ?s')"
    by simp_all
  have "\<exists>new. obstacles1 (run1 E es ?s') = obstacles1 s @ new"
    using ih(5) t by auto
  then show ?case using ih c d l p by simp
qed

lemmas constants1 =
  lanePositions1_def obstacleModelFiles1_def obstacleModelPath_def spawnZPosition_def
  removalZPosition_def obstacleSpeed_def spawnInterval1_def distanceFactor_def

lemmas samples1 =
  sampleObstacle1_def sampleFrame1_def nearState1_def collided1_def init1_def

lemma collided1_eval:
  "isGameOver1 collided1" "currentLaneIndex collided1 = 1"
  "map (\<lambda>ob. vz (position ob)) (obstacles1 collided1) = [-5, -0.7]"
  by (simp_all add: samples1 samples constants1 animate1_def advance_def intersectsBox_def
      Let_def)

lemma collided2_eval:
  "isGameOver2 collided2"
  by (simp add: collided2_def animate2_isGameOver nearState2_def init2_def
      collisionDetected_iff overlaps2_def intersectsBox_def samples sample_configurations
      sample_types playerPosition2_def)

subsection \<open>The lane index\<close>

lemma moveLoop_kept:
  "currentLaneIndex (moveLoop E pb n s) = currentLaneIndex s \<and>
   distanceCovered1 (moveLoop E pb n s) = distanceCovered1 s \<and>
   lastSpawnTime1 (moveLoop E pb n s) = lastSpawnTime1 s \<and>
   playerPosition1 (moveLoop E pb n s) = playerPosition1 s \<and>
   pending1 (moveLoop E pb n s) = pending1 s \<and>
   nextIdent1 (moveLoop E pb n s) = nextIdent1 s"
  by (induction n arbitrary: s) (auto simp: Let_def)

lemma animate1_lane: "currentLaneIndex (animate1 E f s) = currentLaneIndex s"
  by (simp add: animate1_def Let_def moveLoop_kept spawnObstacle1_def)

lemma keydown1_left:
  "currentLaneIndex (keydown1 ''ArrowLeft'' s) =
     (if isGameOver1 s \<or> currentLaneIndex s \<le> 0 then currentLaneIndex s
      else currentLaneIndex s - 1)"
  by (simp add: keydown1_def)

lemma keydown1_right:
  "currentLaneIndex (keydown1 ''ArrowRight'' s) =
     (if isGameOver1 s \<or> currentLaneIndex s \<ge> int (length lanePositions1) - 1
      then currentLaneIndex s else currentLaneIndex s + 1)"
  by (simp add: keydown1_def)

lemma step1_lane_range:
  "0 \<le> currentLaneIndex s \<and> currentLaneIndex s \<le> int (length lanePositions1) - 1 \<Longrightarrow>
   0 \<le> currentLaneIndex (step1 E e s) \<and>
   currentLaneIndex (step1 E e s) \<le> int (length lanePositions1) - 1"
  by (cases e) (auto simp: animate1_lane keydown1_def loadSuccess1_def loadError1_def Let_def)

lemma run1_lane_range:
  "0 \<le> currentLaneIndex s \<and> currentLaneIndex s \<le> int (length lanePositions1) - 1 \<Longrightarrow>
   0 \<le> currentLaneIndex (run1 E es s) \<and>
   currentLaneIndex (run1 E es s) \<le> int (length lanePositions1) - 1"
proof (induction es arbitrary: s)
  case Nil
  then show ?case by simp
next
  case (Cons e es)
  from Cons.IH [OF step1_lane_range [OF Cons.prems]] show ?case by simp
qed

subsection \<open>The loop of the lane script\<close>

lemma moveLoop_nohit:
  "n \<le> length (obstacles1 s) \<Longrightarrow>
   \<forall>k<n. \<not> intersectsBox pb (Box3_obstacle E (advance (obstacles1 s ! k))) \<Longrightarrow>
   obstacles1 (moveLoop E pb n s) =
     filter keep1 (map advance (take n (obstacles1 s))) @ drop n (obstacles1 s) \<and>
   scene1 (moveLoop E pb n s) =
     filter (\<lambda>j. j \<notin> ident ` {ob \<in> set (take n (obstacles1 s)). \<not> keep1 (advance ob)}) (scene1 s) \<and>
   isGameOver1 (moveLoop E pb n s) = isGameOver1 s \<and>
   console1 (moveLoop E pb n s) = console1 s \<and>
   playerColor1 (moveLoop E pb n s) = playerColor1 s"
proof (induction n arbitrary: s)
  case 0
  then show ?case by simp
next
  case (Suc n)
  let ?obs = "obstacles1 s"
  let ?o = "advance (?obs ! n)"
  from Suc.prems have n: "n < length ?obs" by simp
  from Suc.prems have nh: "\<not> intersectsBox pb (Box3_obstacle E ?o)" by simp
  have tkS: "take (Suc n) ?obs = take n ?obs @ [?obs ! n]"
    using n by (simp add: take_Suc_conv_app_nth)
  have ido: "ident ?o = ident (?obs ! n)" by (simp add: advance_def)
  show ?case
  proof (cases "keep1 ?o")
    case True
    let ?s' = "s\<lparr>obstacles1 := ?obs[n := ?o]\<rparr>"
    have step: "moveLoop E pb (Suc n) s = moveLoop E pb n ?s'"
      using nh True by (simp add: Let_def keep1_def)
    have len: "n \<le> length (obstacles1 ?s')" using n by simp
    have nh': "\<forall>k<n. \<not> intersectsBox pb (Box3_obstacle E (advance (obstacles1 ?s' ! k)))"
      using Suc.prems(2) by simp
    have tk: "take n (obstacles1 ?s') = take n ?obs" by simp
    have dr: "drop n (obstacles1 ?s') = ?o # drop (Suc n) ?obs"
      using n by (simp add: Cons_nth_drop_Suc [symmetric] upd_conv_take_nth_drop)
    from Suc.IH [OF len nh'] show ?thesis
      unfolding step tk dr using True tkS by (auto intro!: filter_cong)
  next
    case False
    let ?s' = "s\<lparr>obstacles1 := ?obs[n := ?o]\<rparr>
                \<lparr>scene1 := scene_remove (ident ?o) (scene1 s),
                 obstacles1 := splice1 n (?obs[n := ?o])\<rparr>"
    have step: "moveLoop E pb (Suc n) s = moveLoop E pb n ?s'"
      using nh False by (simp add: Let_def keep1_def)
    have len: "n \<le> length (obstacles1 ?s')" using n by (simp add: splice1_def)
    have tk: "take n (obstacles1 ?s') = take n ?obs" using n by (simp add: splice1_def)
    have dr: "drop n (obstacles1 ?s') = drop (Suc n) ?obs" using n by (simp add: splice1_def)
    have nth: "\<forall>k<n. obstacles1 ?s' ! k = ?obs ! k" using n by (simp add: splice1_def nth_append)
    have nh': "\<forall>k<n. \<not> intersectsBox pb (Box3_obstacle E (advance (obstacles1 ?s' ! k)))"
      using Suc.prems(2) nth by simp
    from Suc.IH [OF len nh'] show ?thesis
      unfolding step tk dr using False tkS ido
      by (auto simp: scene_remove_def intro!: filter_cong)
  qed
qed

lemma moveLoop_hit:
  "n \<le> length (obstacles1 s) \<Longrightarrow> k < n \<Longrightarrow>
   intersectsBox pb (Box3_obstacle E (advance (obstacles1 s ! k))) \<Longrightarrow>
   \<forall>j. k < j \<and> j < n \<longrightarrow> \<not> intersectsBox pb (Box3_obstacle E (advance (obstacles1 s ! j))) \<Longrightarrow>
   obstacles1 (moveLoop E pb n s) =
     take k (obstacles1 s) @ advance (obstacles1 s ! k) #
       filter keep1 (map advance (take (n - Suc k) (drop (Suc k) (obstacles1 s)))) @
       drop n (obstacles1 s) \<and>
   isGameOver1 (moveLoop E pb n s) \<and>
   console1 (moveLoop E pb n s) = console1 s @ [GameOver None] \<and>
   playerColor1 (moveLoop E pb n s) = 0x0000ff"
proof (induction n arbitrary: s)
  case 0
  then show ?case by simp
next
  case (Suc n)
  let ?obs = "obstacles1 s"
  let ?o = "advance (?obs ! n)"
  from Suc.prems have n: "n < length ?obs" by simp
  show ?case
  proof (cases "k = n")
    case True
    then have h: "intersectsBox pb (Box3_obstacle E ?o)" using Suc.prems(3) by simp
    show ?thesis using h True n
      by (simp add: Let_def upd_conv_take_nth_drop)
  next
    case False
    then have kn: "k < n" using Suc.prems(2) by simp
    have nh: "\<not> intersectsBox pb (Box3_obstacle E ?o)" using Suc.prems(4) kn by simp
    have seg: "take (Suc n - Suc k) (drop (Suc k) ?obs) =
               take (n - Suc k) (drop (Suc k) ?obs) @ [?obs ! n]"
    proof -
      have "Suc n - Suc k = Suc (n - Suc k)" using kn by simp
      moreover have "n - Suc k < length (drop (Suc k) ?obs)" using kn n by simp
      moreover have "drop (Suc k) ?obs ! (n - Suc k) = ?obs ! n" using kn n by simp
      ultimately show ?thesis by (simp add: take_Suc_conv_app_nth)
    qed
    show ?thesis
    proof (cases "keep1 ?o")
      case True
      let ?s' = "s\<lparr>obstacles1 := ?obs[n := ?o]\<rparr>"
      have step: "moveLoop E pb (Suc n) s = moveLoop E pb n ?s'"
        using nh True by (simp add: Let_def keep1_def)
      have len: "n \<le> length (obstacles1 ?s')" using n by simp
      have nthk: "obstacles1 ?s' ! k = ?obs ! k" using kn by simp
      have hk: "intersectsBox pb (Box3_obstacle E (advance (obstacles1 ?s' ! k)))"
        using Suc.prems(3) nthk by simp
      have nh': "\<forall>j. k < j \<and> j < n \<longrightarrow>
                   \<not> intersectsBox pb (Box3_obstacle E (advance (obstacles1 ?s' ! j)))"
        using Suc.prems(4) by simp
      have tk: "take k (obstacles1 ?s') = take k ?obs" using kn by simp
      have mid: "take (n - Suc k) (drop (Suc k) (obstacles1 ?s')) =
                 take (n - Suc k) (drop (Suc k) ?obs)"
        using kn by (simp add: drop_update_swap)
      have dr: "drop n (obstacles1 ?s') = ?o # drop (Suc n) ?obs"
        using n by (simp add: upd_conv_take_nth_drop)
      from Suc.IH [OF len kn hk nh'] show ?thesis
        unfolding step tk mid dr nthk using True seg by simp
    next
      case False
      let ?s' = "s\<lparr>obstacles1 := ?obs[n := ?o]\<rparr>
                  \<lparr>scene1 := scene_remove (ident ?o) (scene1 s),
                   obstacles1 := splice1 n (?obs[n := ?o])\<rparr>"
      have step: "moveLoop E pb (Suc n) s = moveLoop E pb n ?s'"
        using nh False by (simp add: Let_def keep1_def)
      have len: "n \<le> length (obstacles1 ?s')" using n by (simp add: splice1_def)
      have nth: "\<forall>j<n. obstacles1 ?s' ! j = ?obs ! j"
        using n by (simp add: splice1_def nth_append)
      have hk: "intersectsBox pb (Box3_obstacle E (advance (obstacles1 ?s' ! k)))"
        using Suc.prems(3) nth kn by simp
      have nh': "\<forall>j. k < j \<and> j < n \<longrightarrow>
                   \<not> intersectsBox pb (Box3_obstacle E (advance (obstacles1 ?s' ! j)))"
        using Suc.prems(4) nth by simp
      have tk: "take k (obstacles1 ?s') = take k ?obs" using kn n by (simp add: splice1_def)
      have mid: "take (n - Suc k) (drop (Suc k) (obstacles1 ?s')) =
                 take (n - Suc k) (drop (Suc k) ?obs)"
        using kn n by (simp add: splice1_def drop_take)
      have dr: "drop n (obstacles1 ?s') = drop (Suc n) ?obs"
        using n by (simp add: splice1_def)
      from Suc.IH [OF len kn hk nh'] show ?thesis
        unfolding step tk mid dr using False seg nth kn by simp
    qed
  qed
qed

lemma moveLoop_isGameOver:
  assumes "n \<le> length (obstacles1 s)"
  shows "isGameOver1 (moveLoop E pb n s) =
     (isGameOver1 s \<or>
      (\<exists>k<n. intersectsBox pb (Box3_obstacle E (advance (obstacles1 s ! k)))))"
proof (cases "\<exists>k<n. intersectsBox pb (Box3_obstacle E (advance (obstacles1 s ! k)))")
  case False
  then have nh: "\<forall>k<n. \<not> intersectsBox pb (Box3_obstacle E (advance (obstacles1 s ! k)))"
    by simp
  from moveLoop_nohit [OF assms nh] False show ?thesis by blast
next
  case True
  let ?P = "\<lambda>k. k < n \<and> intersectsBox pb (Box3_obstacle E (advance (obstacles1 s ! k)))"
  from True obtain k0 where k0: "?P k0" by blast
  have bound: "\<forall>y. ?P y \<longrightarrow> y \<le> n" by simp
  have g: "?P (Greatest ?P)" using GreatestI_nat [of ?P k0 n] k0 bound by blast
  have m: "\<And>j. ?P j \<Longrightarrow> j \<le> Greatest ?P" using Greatest_le_nat [of ?P _ n] bound by blast
  have nh: "\<forall>j. Greatest ?P < j \<and> j < n \<longrightarrow>
              \<not> intersectsBox pb (Box3_obstacle E (advance (obstacles1 s ! j)))"
  proof (intro allI impI notI)
    fix j
    assume a: "Greatest ?P < j \<and> j < n"
      and h: "intersectsBox pb (Box3_obstacle E (advance (obstacles1 s ! j)))"
    from m [of j] a h have "j \<le> Greatest ?P" by simp
    with a show False by simp
  qed
  from g have gl: "Greatest ?P < n"
    and gh: "intersectsBox pb (Box3_obstacle E (advance (obstacles1 s ! Greatest ?P)))"
    by simp_all
  from moveLoop_hit [OF assms gl gh nh] True show ?thesis by blast
qed

lemma beforeLoop1_kept:
  "obstacles1 (beforeLoop1 f s) = obstacles1 s \<and> scene1 (beforeLoop1 f s) = scene1 s \<and>
   isGameOver1 (beforeLoop1 f s) = isGameOver1 s \<and> console1 (beforeLoop1 f s) = console1 s \<and>
   playerColor1 (beforeLoop1 f s) = playerColor1 s \<and>
   currentLaneIndex (beforeLoop1 f s) = currentLaneIndex s \<and>
   nextIdent1 (beforeLoop1 f s) = nextIdent1 s \<and>
   distanceCovered1 (beforeLoop1 f s) = distanceCovered1 s \<and>
   Box3_player E (playerPosition1 (beforeLoop1 f s)) = playerBox1 E s"
  by (simp add: beforeLoop1_def Let_def spawnObstacle1_def playerBox1_def)

lemma animate1_running:
  "\<not> isGameOver1 s \<Longrightarrow>
   animate1 E f s =
     (moveLoop E (playerBox1 E s) (length (obstacles1 s)) (beforeLoop1 f s))
       \<lparr>distanceCovered1 :=
          distanceCovered1
            (moveLoop E (playerBox1 E s) (length (obstacles1 s)) (beforeLoop1 f s)) +
          distanceFactor\<rparr>"
  by (simp add: animate1_def beforeLoop1_def Let_def spawnObstacle1_def playerBox1_def)

lemma animate1_nohit:
  assumes "\<not> isGameOver1 s" and "\<forall>ob\<in>set (obstacles1 s). \<not> hits1 E s ob"
  shows "obstacles1 (animate1 E f s) = filter keep1 (map advance (obstacles1 s)) \<and>
         scene1 (animate1 E f s) =
           filter (\<lambda>j. j \<notin> ident ` {ob \<in> set (obstacles1 s). \<not> keep1 (advance ob)}) (scene1 s) \<and>
         \<not> isGameOver1 (animate1 E f s)"
proof -
  let ?s2 = "beforeLoop1 f s"
  have o: "obstacles1 ?s2 = obstacles1 s" and sc: "scene1 ?s2 = scene1 s"
    and g: "isGameOver1 ?s2 = isGameOver1 s"
    by (simp_all add: beforeLoop1_kept)
  have len: "length (obstacles1 s) \<le> length (obstacles1 ?s2)" using o by simp
  have nh: "\<forall>k<length (obstacles1 s).
              \<not> intersectsBox (playerBox1 E s) (Box3_obstacle E (advance (obstacles1 ?s2 ! k)))"
    using assms(2) o by (simp add: hits1_def)
  from moveLoop_nohit [OF len nh] show ?thesis
    unfolding animate1_running [OF assms(1)] o sc g
    using assms(1) by simp
qed

lemma animate1_hit:
  assumes "\<not> isGameOver1 s" and "k < length (obstacles1 s)"
    and "hits1 E s (obstacles1 s ! k)"
    and "\<forall>j. k < j \<and> j < length (obstacles1 s) \<longrightarrow> \<not> hits1 E s (obstacles1 s ! j)"
  shows "obstacles1 (animate1 E f s) =
           take k (obstacles1 s) @ advance (obstacles1 s ! k) #
             filter keep1 (map advance (drop (Suc k) (obstacles1 s))) \<and>
         isGameOver1 (animate1 E f s)"
proof -
  let ?s2 = "beforeLoop1 f s"
  have o: "obstacles1 ?s2 = obstacles1 s"
    by (simp add: beforeLoop1_kept)
  have len: "length (obstacles1 s) \<le> length (obstacles1 ?s2)" using o by simp
  have h: "intersectsBox (playerBox1 E s) (Box3_obstacle E (advance (obstacles1 ?s2 ! k)))"
    using assms(3) o by (simp add: hits1_def)
  have nh: "\<forall>j. k < j \<and> j < length (obstacles1 s) \<longrightarrow>
              \<not> intersectsBox (playerBox1 E s) (Box3_obstacle E (advance (obstacles1 ?s2 ! j)))"
    using assms(4) o by (simp add: hits1_def)
  from moveLoop_hit [OF len assms(2) h nh] show ?thesis
    unfolding animate1_running [OF assms(1)] o
    by simp
qed

lemma animate1_isGameOver:
  "isGameOver1 (animate1 E f s) =
     (isGameOver1 s \<or> (\<exists>ob\<in>set (obstacles1 s). hits1 E s ob))"
proof (cases "isGameOver1 s")
  case True
  then show ?thesis by (simp add: animate1_def)
next
  case False
  let ?s2 = "beforeLoop1 f s"
  have o: "obstacles1 ?s2 = obstacles1 s" and g: "isGameOver1 ?s2 = isGameOver1 s"
    by (simp_all add: beforeLoop1_kept)
  have len: "length (obstacles1 s) \<le> length (obstacles1 ?s2)" using o by simp
  have "(\<exists>k<length (obstacles1 s). hits1 E s (obstacles1 s ! k)) =
        (\<exists>ob\<in>set (obstacles1 s). hits1 E s ob)"
    by (metis in_set_conv_nth)
  then show ?thesis
    unfolding animate1_running [OF False]
    using moveLoop_isGameOver [OF len, of E "playerBox1 E s"] False
    unfolding o g hits1_def by simp
qed

lemma Rep_rnd_range: "0 \<le> Rep_rnd r \<and> Rep_rnd r < 1"
  using Rep_rnd [of r] by simp

lemma spawnObstacle2_obstacles:
  "\<exists>new. obstacles2 (spawnObstacle2 rm rl rz s) = obstacles2 s @ new \<and> length new \<le> 1 \<and>
     (\<forall>ob\<in>set new. - 70 < vz (position ob) \<and> vz (position ob) \<le> - 20)"
proof -
  have z: "- 70 < - Rep_rnd rz * 50 - 20 \<and> - Rep_rnd rz * 50 - 20 \<le> - 20"
    using Rep_rnd_range [of rz] by simp
  show ?thesis using z
    by (simp add: spawnObstacle2_def switchTheme_def placeObstacle_def Let_def
        split: option.split)
qed

lemma removeOffscreen_obstacles:
  "obstacles2 (removeOffscreen s) =
     filter (\<lambda>ob. \<not> vz (position ob) > removalZ2) (obstacles2 s)"
  by (simp add: removeOffscreen_def removalLoop_obstacles)

lemma removeOffscreen_scene:
  "scene2 (removeOffscreen s) =
     filter (\<lambda>j. j \<notin> ident ` {ob \<in> set (obstacles2 s). vz (position ob) > removalZ2}) (scene2 s)"
  by (simp add: removeOffscreen_def removalLoop_scene)

lemma animate2_obstacles:
  assumes "\<not> isGameOver2 s"
  shows "\<exists>new. obstacles2 (animate2 E f s) =
           filter (\<lambda>ob. \<not> vz (position ob) > removalZ2) (obstacles2 s) @ new \<and> length new \<le> 1 \<and>
           (\<forall>ob\<in>set new. - 70 < vz (position ob) \<and> vz (position ob) \<le> - 20)"
proof -
  let ?s1 = "s\<lparr>distanceCovered2 :=
      dadd (fl (distanceCovered2 s)) (dmul (fl playerSpeed) (fl (deltaTime f)))\<rparr>"
  let ?s3 = "removeOffscreen (collisionLoop E (obstacles2 ?s1) ?s1)"
  have o3: "obstacles2 ?s3 = filter (\<lambda>ob. \<not> vz (position ob) > removalZ2) (obstacles2 s)"
    by (simp add: removeOffscreen_obstacles collisionLoop_kept)
  have a: "animate2 E f s = spawnCheck f ?s3" using assms by (simp add: animate2_def Let_def)
  show ?thesis
  proof (cases "dsub (fl (currentTime f)) (fl (lastSpawnTime2 ?s3)) > currentSpawnInterval (distanceCovered2 ?s3)
         \<and> length (obstacles2 ?s3) < maxObstaclesInScene")
    case True
    from spawnObstacle2_obstacles [of "rndModel f" "rndLane f" "rndDepth f" ?s3]
    show ?thesis unfolding a spawnCheck_def using True o3 by auto
  next
    case False
    have "spawnCheck f ?s3 = ?s3" using False by (auto simp: spawnCheck_def)
    then show ?thesis unfolding a using o3 by simp
  qed
qed

subsection \<open>Sample frames\<close>

lemmas samples_far = farState1_def farState2_def

lemma nearState1_eval:
  "\<not> isGameOver1 nearState1" "length (obstacles1 nearState1) = 2"
  "hits1 (cubeEngine 0.5 0.25) nearState1 (obstacles1 nearState1 ! 1)"
  "\<not> hits1 (cubeEngine 0.5 0.25) nearState1 (obstacles1 nearState1 ! 0)"
  by (simp_all add: samples1 samples constants1 hits1_def playerBox1_def advance_def
      intersectsBox_def)

lemma farState1_eval:
  "\<not> isGameOver1 farState1"
  "\<forall>ob\<in>set (obstacles1 farState1). \<not> hits1 (cubeEngine 0.5 0.25) farState1 ob"
  "filter keep1 (map advance (obstacles1 farState1)) = [advance (sampleObstacle1 1 2 (-5))]"
  "map ident (filter (\<lambda>ob. \<not> keep1 (advance ob)) (obstacles1 farState1)) = [0]"
  by (simp_all add: samples_far samples1 samples constants1 hits1_def playerBox1_def advance_def
      intersectsBox_def keep1_def)

lemma farState2_eval:
  "\<not> isGameOver2 farState2"
  "filter (\<lambda>ob. \<not> vz (position ob) > removalZ2) (obstacles2 farState2) = [hoopAhead]"
  "map ident (filter (\<lambda>ob. vz (position ob) > removalZ2) (obstacles2 farState2)) = [0]"
  by (simp_all add: samples_far samples init2_def removalZ2_def cameraZ2_def)

subsection \<open>Where obstacles are placed\<close>

lemma random_index_less: "0 < n \<Longrightarrow> random_index r n < n"
proof -
  assume n: "0 < n"
  have r: "0 \<le> Rep_rnd r" "Rep_rnd r < 1" using Rep_rnd_range [of r] by simp_all
  have "Rep_rnd r * real n < real n" using r n by simp
  then have "\<lfloor>Rep_rnd r * real n\<rfloor> < int n" by (simp add: floor_less_iff)
  moreover have "0 \<le> \<lfloor>Rep_rnd r * real n\<rfloor>" using r by simp
  ultimately show ?thesis unfolding random_index_def by linarith
qed

lemma placeObstacle_appends:
  "\<exists>b. obstacles2 (placeObstacle name rl rz s) = obstacles2 s @ [b] \<and> placed2 b \<and>
        otype b = Some name \<and> ident b = nextIdent2 s \<and> - 70 < vz (position b)"
proof -
  have z: "- 70 < - Rep_rnd rz * 50 - 20 \<and> - Rep_rnd rz * 50 - 20 \<le> - 20"
    using Rep_rnd_range [of rz] by simp
  have "random_index rl (length lanePositions2) < length lanePositions2"
    by (rule random_index_less) (simp add: lanePositions2_def)
  then have x: "lanePositions2 ! random_index rl (length lanePositions2) \<in> set lanePositions2"
    by (rule nth_mem)
  show ?thesis using z x by (simp add: placeObstacle_def Let_def placed2_def)
qed

lemma placeObstacle_nextIdent: "nextIdent2 (placeObstacle name rl rz s) = nextIdent2 s + 1"
  by (simp add: placeObstacle_def Let_def)

lemma spawnObstacle2_new:
  "(obstacles2 (spawnObstacle2 rm rl rz s) = obstacles2 s \<and>
    nextIdent2 (spawnObstacle2 rm rl rz s) = nextIdent2 s) \<or>
   (\<exists>b. obstacles2 (spawnObstacle2 rm rl rz s) = obstacles2 s @ [b] \<and> placed2 b \<and>
        ident b = nextIdent2 s \<and> nextIdent2 (spawnObstacle2 rm rl rz s) = nextIdent2 s + 1)"
proof -
  let ?s1 = "switchTheme s"
  have k: "obstacles2 ?s1 = obstacles2 s" "nextIdent2 ?s1 = nextIdent2 s"
    by (simp_all add: switchTheme_def)
  show ?thesis
  proof (cases "map_of obstacleThemes (currentThemeName ?s1)")
    case None
    then show ?thesis by (simp add: spawnObstacle2_def Let_def k)
  next
    case (Some themeModels)
    show ?thesis
    proof (cases "themeModels \<noteq> [] \<and>
        themeModels ! random_index rm (length themeModels) \<in> set (loadedObstacleAssets ?s1)")
      case True
      from placeObstacle_appends
        [of "themeModels ! random_index rm (length themeModels)" rl rz ?s1]
      show ?thesis using Some True k
        by (auto simp: spawnObstacle2_def Let_def placeObstacle_nextIdent)
    next
      case False
      then show ?thesis using Some by (auto simp: spawnObstacle2_def Let_def k)
    qed
  qed
qed

lemma animate2_new:
  "animate2 E f s = s \<or>
   (\<exists>new. obstacles2 (animate2 E f s) =
           filter (\<lambda>b. \<not> vz (position b) > removalZ2) (obstacles2 s) @ new \<and>
         (new = [] \<and> nextIdent2 (animate2 E f s) = nextIdent2 s \<or>
          (\<exists>b. new = [b] \<and> placed2 b \<and> ident b = nextIdent2 s \<and>
               nextIdent2 (animate2 E f s) = nextIdent2 s + 1)))"
proof (cases "isGameOver2 s")
  case True
  then show ?thesis by (simp add: animate2_def)
next
  case False
  let ?s1 = "s\<lparr>distanceCovered2 :=
      dadd (fl (distanceCovered2 s)) (dmul (fl playerSpeed) (fl (deltaTime f)))\<rparr>"
  let ?s3 = "removeOffscreen (collisionLoop E (obstacles2 ?s1) ?s1)"
  have o3: "obstacles2 ?s3 = filter (\<lambda>b. \<not> vz (position b) > removalZ2) (obstacles2 s)"
    by (simp add: removeOffscreen_obstacles collisionLoop_kept)
  have n3: "nextIdent2 ?s3 = nextIdent2 s"
    by (simp add: removeOffscreen_def removalLoop_kept collisionLoop_kept)
  have a: "animate2 E f s = spawnCheck f ?s3" using False by (simp add: animate2_def Let_def)
  show ?thesis
  proof (cases "dsub (fl (currentTime f)) (fl (lastSpawnTime2 ?s3)) > currentSpawnInterval (distanceCovered2 ?s3)
         \<and> length (obstacles2 ?s3) < maxObstaclesInScene")
    case True
    from spawnObstacle2_new [of "rndModel f" "rndLane f" "rndDepth f" ?s3]
    show ?thesis unfolding a spawnCheck_def using True o3 n3 by auto
  next
    case False
    have "spawnCheck f ?s3 = ?s3" using False by (auto simp: spawnCheck_def)
    then show ?thesis unfolding a using o3 n3 by simp
  qed
qed

lemma step2_new:
  "\<exists>old new. obstacles2 (step2 E e s) = old @ new \<and> set old \<subseteq> set (obstacles2 s) \<and>
     (\<exists>p. old = filter p (obstacles2 s)) \<and>
     (new = [] \<and> nextIdent2 (step2 E e s) = nextIdent2 s \<or>
      (\<exists>b. new = [b] \<and> placed2 b \<and> ident b = nextIdent2 s \<and>
           nextIdent2 (step2 E e s) = nextIdent2 s + 1))"
proof (cases e)
  case (Frame2 f)
  from animate2_new [of E f s] show ?thesis
  proof
    assume "animate2 E f s = s"
    then have "obstacles2 (step2 E e s) = filter (\<lambda>b. True) (obstacles2 s) @ []"
      "nextIdent2 (step2 E e s) = nextIdent2 s"
      using Frame2 by simp_all
    then show ?thesis by (metis (no_types, lifting) filter_is_subset)
  next
    assume "\<exists>new. obstacles2 (animate2 E f s) =
           filter (\<lambda>b. \<not> vz (position b) > removalZ2) (obstacles2 s) @ new \<and>
         (new = [] \<and> nextIdent2 (animate2 E f s) = nextIdent2 s \<or>
          (\<exists>b. new = [b] \<and> placed2 b \<and> ident b = nextIdent2 s \<and>
               nextIdent2 (animate2 E f s) = nextIdent2 s + 1))"
    then show ?thesis using Frame2 by (metis (no_types, lifting) filter_is_subset step2.simps(1))
  qed
next
  case (LoadSuccess2 k rl rz)
  show ?thesis
  proof (cases "k < length (pending2 s)")
    case True
    let ?s' = "s\<lparr>pending2 := splice1 k (pending2 s),
                loadedObstacleAssets := List.insert (pending2 s ! k) (loadedObstacleAssets s)\<rparr>"
    from placeObstacle_appends [of "pending2 s ! k" rl rz ?s'] obtain b where
      b: "obstacles2 (placeObstacle (pending2 s ! k) rl rz ?s') = obstacles2 s @ [b]"
        "placed2 b" "ident b = nextIdent2 s"
      by auto
    have "obstacles2 (step2 E e s) = filter (\<lambda>b. True) (obstacles2 s) @ [b]"
      "nextIdent2 (step2 E e s) = nextIdent2 s + 1"
      using LoadSuccess2 True b by (simp_all add: loadSuccess2_def placeObstacle_nextIdent)
    then show ?thesis using b(2,3) by (metis (no_types, lifting) filter_is_subset)
  next
    case False
    then have "obstacles2 (step2 E e s) = filter (\<lambda>b. True) (obstacles2 s) @ []"
      "nextIdent2 (step2 E e s) = nextIdent2 s"
      using LoadSuccess2 by (simp_all add: loadSuccess2_def)
    then show ?thesis by (metis (no_types, lifting) filter_is_subset)
  qed
next
  case (LoadError2 k)
  then have "obstacles2 (step2 E e s) = filter (\<lambda>b. True) (obstacles2 s) @ []"
      "nextIdent2 (step2 E e s) = nextIdent2 s"
    by (simp_all add: loadError2_def)
  then show ?thesis by (metis (no_types, lifting) filter_is_subset)
qed

lemma step2_inv2: "inv2 s \<Longrightarrow> inv2 (step2 E e s)"
proof -
  assume i: "inv2 s"
  from step2_new [of E e s] obtain old new p where
    o: "obstacles2 (step2 E e s) = old @ new" and sub: "set old \<subseteq> set (obstacles2 s)"
    and p: "old = filter p (obstacles2 s)"
    and n: "new = [] \<and> nextIdent2 (step2 E e s) = nextIdent2 s \<or>
      (\<exists>b. new = [b] \<and> placed2 b \<and> ident b = nextIdent2 s \<and>
           nextIdent2 (step2 E e s) = nextIdent2 s + 1)"
    by blast
  from i have pl: "\<forall>b\<in>set (obstacles2 s). placed2 b"
    and d: "distinct (map ident (obstacles2 s))"
    and l: "\<forall>b\<in>set (obstacles2 s). ident b < nextIdent2 s"
    by (simp_all add: inv2_def idents_ok_def list_all_iff)
  have dold: "distinct (map ident old)" unfolding p using d by (rule distinct_map_filter)
  from n show ?thesis
  proof
    assume "new = [] \<and> nextIdent2 (step2 E e s) = nextIdent2 s"
    then show ?thesis using o sub pl dold l
      by (auto simp: inv2_def idents_ok_def list_all_iff)
  next
    assume "\<exists>b. new = [b] \<and> placed2 b \<and> ident b = nextIdent2 s \<and>
           nextIdent2 (step2 E e s) = nextIdent2 s + 1"
    then obtain b where b: "new = [b]" "placed2 b" "ident b = nextIdent2 s"
      "nextIdent2 (step2 E e s) = nextIdent2 s + 1" by blast
    have lo: "\<forall>c\<in>set old. ident c < nextIdent2 s" using sub l by blast
    then have "ident b \<notin> ident ` set old" using b(3) by auto
    moreover have "\<forall>c\<in>set old. ident c < nextIdent2 s + 1" using lo by auto
    moreover have "\<forall>c\<in>set old. placed2 c" using sub pl by blast
    ultimately show ?thesis using o dold b
      by (simp add: inv2_def idents_ok_def list_all_iff)
  qed
qed

lemma run2_inv2: "inv2 s \<Longrightarrow> inv2 (run2 E es s)"
  by (induction es arbitrary: s) (simp_all add: step2_inv2)

lemma init2_inv2: "inv2 init2"
  by (simp add: inv2_def init2_def idents_ok_def)

lemma step2_nextIdent: "nextIdent2 s \<le> nextIdent2 (step2 E e s)"
proof -
  from step2_new [of E e s] have
    "nextIdent2 (step2 E e s) = nextIdent2 s \<or> nextIdent2 (step2 E e s) = nextIdent2 s + 1"
    by blast
  then show ?thesis by linarith
qed

lemma step2_track:
  "\<forall>c\<in>set (obstacles2 (step2 E e s)). c \<in> set (obstacles2 s) \<or> nextIdent2 s \<le> ident c"
proof -
  from step2_new [of E e s] obtain old new where
    o: "obstacles2 (step2 E e s) = old @ new" and sub: "set old \<subseteq> set (obstacles2 s)"
    and n: "new = [] \<or> (\<exists>b. new = [b] \<and> ident b = nextIdent2 s)"
    by blast
  from n have "\<forall>c\<in>set new. nextIdent2 s \<le> ident c" by auto
  then show ?thesis unfolding o using sub by auto
qed

lemma run2_track:
  "\<forall>c\<in>set (obstacles2 (run2 E es s)). c \<in> set (obstacles2 s) \<or> nextIdent2 s \<le> ident c"
proof (induction es arbitrary: s)
  case Nil
  then show ?case by simp
next
  case (Cons e es)
  show ?case
  proof
    fix c
    assume "c \<in> set (obstacles2 (run2 E (e # es) s))"
    then have "c \<in> set (obstacles2 (run2 E es (step2 E e s)))" by simp
    with Cons.IH [of "step2 E e s"]
    have "c \<in> set (obstacles2 (step2 E e s)) \<or> nextIdent2 (step2 E e s) \<le> ident c" by blast
    then show "c \<in> set (obstacles2 s) \<or> nextIdent2 s \<le> ident c"
      using step2_track [of E e s] step2_nextIdent [of s E e] by auto
  qed
qed

subsection \<open>Lanes in the lane script\<close>

lemma same_lane_advance: "same_lane b (advance b)"
  by (simp add: same_lane_def advance_def)

lemma same_lane_refl: "same_lane b b"
  by (simp add: same_lane_def)

lemma same_lane_trans: "same_lane a b \<Longrightarrow> same_lane b c \<Longrightarrow> same_lane a c"
  by (simp add: same_lane_def)

lemma set_splice1: "set (splice1 n xs) \<subseteq> set xs"
  by (auto simp: splice1_def dest: in_set_takeD in_set_dropD)

lemma map_ident_update:
  "n < length xs \<Longrightarrow> map ident (xs[n := advance (xs ! n)]) = map ident xs"
  by (simp add: map_update advance_def list_update_same_conv)

lemma moveLoop_idents:
  "n \<le> length (obstacles1 s) \<Longrightarrow> distinct (map ident (obstacles1 s)) \<Longrightarrow>
   distinct (map ident (obstacles1 (moveLoop E pb n s))) \<and>
   ident ` set (obstacles1 (moveLoop E pb n s)) \<subseteq> ident ` set (obstacles1 s)"
proof (induction n arbitrary: s)
  case 0
  then show ?case by simp
next
  case (Suc n)
  let ?obs = "obstacles1 s"
  let ?xs = "?obs[n := advance (?obs ! n)]"
  from Suc.prems have n: "n < length ?obs" by simp
  have mi: "map ident ?xs = map ident ?obs" using n by (rule map_ident_update)
  then have si: "ident ` set ?xs = ident ` set ?obs" by (metis set_map)
  have dx: "distinct (map ident ?xs)" using mi Suc.prems(2) by simp
  show ?case
  proof (cases "intersectsBox pb (Box3_obstacle E (advance (?obs ! n)))")
    case True
    then show ?thesis using dx si by (simp add: Let_def)
  next
    case nh: False
    show ?thesis
    proof (cases "vz (position (advance (?obs ! n))) > removalZPosition")
      case False
      let ?s' = "s\<lparr>obstacles1 := ?xs\<rparr>"
      have step: "moveLoop E pb (Suc n) s = moveLoop E pb n ?s'"
        using nh False by (simp add: Let_def)
      have "n \<le> length (obstacles1 ?s')" "distinct (map ident (obstacles1 ?s'))"
        using n dx by simp_all
      from Suc.IH [OF this] show ?thesis unfolding step using si by simp
    next
      case True
      let ?s' = "s\<lparr>obstacles1 := ?xs\<rparr>
                  \<lparr>scene1 := scene_remove (ident (advance (?obs ! n))) (scene1 s),
                   obstacles1 := splice1 n ?xs\<rparr>"
      have step: "moveLoop E pb (Suc n) s = moveLoop E pb n ?s'"
        using nh True by (simp add: Let_def)
      have sub: "set (splice1 n ?xs) \<subseteq> set ?xs"
        by (rule set_splice1)
      have "map ident (splice1 n ?xs) = take n (map ident ?xs) @ drop (Suc n) (map ident ?xs)"
        by (simp add: splice1_def take_map drop_map)
      moreover have "distinct (take n (map ident ?xs) @ drop (Suc n) (map ident ?xs))"
      proof -
        let ?ys = "map ident ?xs"
        have "distinct (take n ?ys @ drop n ?ys)" using dx by simp
        then have "set (take n ?ys) \<inter> set (drop n ?ys) = {}" by (simp only: distinct_append)
        moreover have "set (drop (Suc n) ?ys) \<subseteq> set (drop n ?ys)"
          by (rule set_drop_subset_set_drop) simp
        ultimately have "set (take n ?ys) \<inter> set (drop (Suc n) ?ys) = {}" by blast
        then show ?thesis using dx by simp
      qed
      ultimately have d': "distinct (map ident (obstacles1 ?s'))" by simp
      have len: "n \<le> length (obstacles1 ?s')" using n by (simp add: splice1_def)
      from Suc.IH [OF len d'] have
        r1: "distinct (map ident (obstacles1 (moveLoop E pb n ?s')))" and
        r2: "ident ` set (obstacles1 (moveLoop E pb n ?s')) \<subseteq> ident ` set (obstacles1 ?s')"
        by simp_all
      have "ident ` set (splice1 n ?xs) \<subseteq> ident ` set ?xs"
        using sub by (rule image_mono)
      then have "ident ` set (obstacles1 ?s') \<subseteq> ident ` set ?obs"
        unfolding si by simp
      with r2 have "ident ` set (obstacles1 (moveLoop E pb n ?s')) \<subseteq> ident ` set ?obs"
        by (rule subset_trans)
      with r1 show ?thesis unfolding step by (rule conjI)
    qed
  qed
qed

lemma moveLoop_same_lane:
  "n \<le> length (obstacles1 s) \<Longrightarrow>
   \<forall>c\<in>set (obstacles1 (moveLoop E pb n s)). \<exists>b\<in>set (obstacles1 s). same_lane b c"
proof (induction n arbitrary: s)
  case 0
  then show ?case using same_lane_refl by auto
next
  case (Suc n)
  let ?obs = "obstacles1 s"
  let ?xs = "?obs[n := advance (?obs ! n)]"
  from Suc.prems have n: "n < length ?obs" by simp
  have xs: "\<forall>c\<in>set ?xs. \<exists>b\<in>set ?obs. same_lane b c"
  proof
    fix c assume "c \<in> set ?xs"
    then have "c \<in> insert (advance (?obs ! n)) (set ?obs)"
      using set_update_subset_insert by fastforce
    then show "\<exists>b\<in>set ?obs. same_lane b c"
      using same_lane_refl same_lane_advance n nth_mem by blast
  qed
  show ?case
  proof (cases "intersectsBox pb (Box3_obstacle E (advance (?obs ! n)))")
    case True
    then show ?thesis using xs by (simp add: Let_def)
  next
    case nh: False
    show ?thesis
    proof (cases "vz (position (advance (?obs ! n))) > removalZPosition")
      case False
      let ?s' = "s\<lparr>obstacles1 := ?xs\<rparr>"
      have step: "moveLoop E pb (Suc n) s = moveLoop E pb n ?s'"
        using nh False by (simp add: Let_def)
      have len: "n \<le> length (obstacles1 ?s')" using n by simp
      show ?thesis unfolding step
      proof
        fix c assume "c \<in> set (obstacles1 (moveLoop E pb n ?s'))"
        with Suc.IH [OF len] obtain b1 where b1: "b1 \<in> set (obstacles1 ?s')" "same_lane b1 c"
          by blast
        from b1(1) have "b1 \<in> set ?xs" by simp
        with xs obtain b where "b \<in> set ?obs" "same_lane b b1" by blast
        with b1(2) show "\<exists>b\<in>set ?obs. same_lane b c" using same_lane_trans by blast
      qed
    next
      case True
      let ?s' = "s\<lparr>obstacles1 := ?xs\<rparr>
                  \<lparr>scene1 := scene_remove (ident (advance (?obs ! n))) (scene1 s),
                   obstacles1 := splice1 n ?xs\<rparr>"
      have step: "moveLoop E pb (Suc n) s = moveLoop E pb n ?s'"
        using nh True by (simp add: Let_def)
      have sub: "set (obstacles1 ?s') \<subseteq> set ?xs"
        using set_splice1 [of n ?xs] by simp
      have len: "n \<le> length (obstacles1 ?s')" using n by (simp add: splice1_def)
      show ?thesis unfolding step
      proof
        fix c assume "c \<in> set (obstacles1 (moveLoop E pb n ?s'))"
        with Suc.IH [OF len] obtain b1 where b1: "b1 \<in> set (obstacles1 ?s')" "same_lane b1 c"
          by blast
        from b1(1) sub have "b1 \<in> set ?xs" by blast
        with xs obtain b where "b \<in> set ?obs" "same_lane b b1" by blast
        with b1(2) show "\<exists>b\<in>set ?obs. same_lane b c" using same_lane_trans by blast
      qed
    qed
  qed
qed

lemma beforeLoop1_pending:
  "\<forall>q\<in>set (pending1 (beforeLoop1 f s)). q \<in> set (pending1 s) \<or> fst q < length lanePositions1"
proof -
  have "random_index (rndLane1 f) (length lanePositions1) < length lanePositions1"
    by (rule random_index_less) (simp add: lanePositions1_def)
  then show ?thesis by (simp add: beforeLoop1_def Let_def spawnObstacle1_def)
qed

lemma animate1_shape:
  "nextIdent1 (animate1 E f s) = nextIdent1 s \<and>
   (\<forall>c\<in>set (obstacles1 (animate1 E f s)). \<exists>b\<in>set (obstacles1 s). same_lane b c) \<and>
   (distinct (map ident (obstacles1 s)) \<longrightarrow>
      distinct (map ident (obstacles1 (animate1 E f s))) \<and>
      ident ` set (obstacles1 (animate1 E f s)) \<subseteq> ident ` set (obstacles1 s)) \<and>
   (\<forall>q\<in>set (pending1 (animate1 E f s)). q \<in> set (pending1 s) \<or> fst q < length lanePositions1)"
proof (cases "isGameOver1 s")
  case True
  then show ?thesis using same_lane_refl by (auto simp: animate1_def)
next
  case False
  let ?s2 = "beforeLoop1 f s"
  have o: "obstacles1 ?s2 = obstacles1 s" and ni: "nextIdent1 ?s2 = nextIdent1 s"
    by (simp_all add: beforeLoop1_kept)
  have len: "length (obstacles1 s) \<le> length (obstacles1 ?s2)" using o by simp
  let ?r = "moveLoop E (playerBox1 E s) (length (obstacles1 s)) ?s2"
  have a: "obstacles1 (animate1 E f s) = obstacles1 ?r" "nextIdent1 (animate1 E f s) = nextIdent1 ?r"
    "pending1 (animate1 E f s) = pending1 ?r"
    unfolding animate1_running [OF False] by simp_all
  have k: "nextIdent1 ?r = nextIdent1 s" "pending1 ?r = pending1 ?s2"
    using ni by (simp_all add: moveLoop_kept)
  have sl: "\<forall>c\<in>set (obstacles1 ?r). \<exists>b\<in>set (obstacles1 s). same_lane b c"
    using moveLoop_same_lane [OF len, of E "playerBox1 E s"] unfolding o .
  have di: "distinct (map ident (obstacles1 s)) \<longrightarrow>
      distinct (map ident (obstacles1 ?r)) \<and>
      ident ` set (obstacles1 ?r) \<subseteq> ident ` set (obstacles1 s)"
    using moveLoop_idents [OF len, of E "playerBox1 E s"] unfolding o by blast
  show ?thesis unfolding a k
  proof (intro conjI)
    show "nextIdent1 s = nextIdent1 s" by (rule refl)
    show "\<forall>c\<in>set (obstacles1 ?r). \<exists>b\<in>set (obstacles1 s). same_lane b c" by (rule sl)
    show "distinct (map ident (obstacles1 s)) \<longrightarrow>
      distinct (map ident (obstacles1 ?r)) \<and>
      ident ` set (obstacles1 ?r) \<subseteq> ident ` set (obstacles1 s)" by (rule di)
    show "\<forall>q\<in>set (pending1 ?s2). q \<in> set (pending1 s) \<or> fst q < length lanePositions1"
      by (rule beforeLoop1_pending)
  qed
qed

lemma placed1_same_lane: "placed1 b \<Longrightarrow> same_lane b c \<Longrightarrow> placed1 c"
  by (simp add: placed1_def same_lane_def)

lemma step1_inv1: "inv1 s \<Longrightarrow> inv1 (step1 E e s)"
proof -
  assume i: "inv1 s"
  then have pl: "\<forall>b\<in>set (obstacles1 s). placed1 b"
    and d: "distinct (map ident (obstacles1 s))"
    and l: "\<forall>b\<in>set (obstacles1 s). ident b < nextIdent1 s"
    and pe: "\<forall>q\<in>set (pending1 s). fst q < length lanePositions1"
    by (simp_all add: inv1_def idents_ok_def list_all_iff)
  show ?thesis
  proof (cases e)
    case (Frame1 f)
    note sh = animate1_shape [of E f s]
    from sh have n: "nextIdent1 (animate1 E f s) = nextIdent1 s" by (rule conjunct1)
    from sh have
      sl: "\<forall>c\<in>set (obstacles1 (animate1 E f s)). \<exists>b\<in>set (obstacles1 s). same_lane b c"
      by (elim conjE)
    from sh d have dd: "distinct (map ident (obstacles1 (animate1 E f s)))"
      and su: "ident ` set (obstacles1 (animate1 E f s)) \<subseteq> ident ` set (obstacles1 s)"
      by simp_all
    from sh have pp: "\<forall>q\<in>set (pending1 (animate1 E f s)).
                 q \<in> set (pending1 s) \<or> fst q < length lanePositions1"
      by (elim conjE)
    have p1: "\<forall>c\<in>set (obstacles1 (animate1 E f s)). placed1 c"
    proof
      fix c assume "c \<in> set (obstacles1 (animate1 E f s))"
      with sl obtain b where "b \<in> set (obstacles1 s)" "same_lane b c" by blast
      with pl show "placed1 c" using placed1_same_lane by blast
    qed
    have l1: "\<forall>c\<in>set (obstacles1 (animate1 E f s)). ident c < nextIdent1 s"
    proof
      fix c assume "c \<in> set (obstacles1 (animate1 E f s))"
      then have "ident c \<in> ident ` set (obstacles1 s)" using su by blast
      then show "ident c < nextIdent1 s" using l by auto
    qed
    have pe1: "\<forall>q\<in>set (pending1 (animate1 E f s)). fst q < length lanePositions1"
    proof
      fix q assume "q \<in> set (pending1 (animate1 E f s))"
      with pp have "q \<in> set (pending1 s) \<or> fst q < length lanePositions1" by (rule bspec)
      then show "fst q < length lanePositions1" using pe by blast
    qed
    show ?thesis using Frame1 p1 l1 pe1 dd n
      by (simp add: inv1_def idents_ok_def list_all_iff)
  next
    case (KeyDown key)
    have "obstacles1 (keydown1 key s) = obstacles1 s" "nextIdent1 (keydown1 key s) = nextIdent1 s"
      "pending1 (keydown1 key s) = pending1 s"
      by (simp_all add: keydown1_def)
    then show ?thesis using KeyDown i by (simp add: inv1_def)
  next
    case (LoadSuccess1 k)
    show ?thesis
    proof (cases "k < length (pending1 s)")
      case True
      then have "fst (pending1 s ! k) < length lanePositions1" using pe by simp
      then have x: "lanePositions1 ! fst (pending1 s ! k) \<in> set lanePositions1" by (rule nth_mem)
      have sp: "\<forall>q\<in>set (splice1 k (pending1 s)). fst q < length lanePositions1"
        using pe set_splice1 [of k "pending1 s"] by blast
      have "nextIdent1 s \<notin> ident ` set (obstacles1 s)" using l by auto
      moreover have "\<forall>b\<in>set (obstacles1 s). ident b < nextIdent1 s + 1" using l by auto
      ultimately show ?thesis using LoadSuccess1 True x sp pl d
        by (simp add: inv1_def idents_ok_def list_all_iff loadSuccess1_def Let_def placed1_def)
    next
      case False
      then show ?thesis using LoadSuccess1 i by (simp add: loadSuccess1_def)
    qed
  next
    case (LoadError1 k)
    have sp: "\<forall>q\<in>set (splice1 k (pending1 s)). fst q < length lanePositions1"
      using pe set_splice1 [of k "pending1 s"] by blast
    show ?thesis using LoadError1 i sp
      by (simp add: inv1_def loadError1_def)
  qed
qed

lemma run1_inv1: "inv1 s \<Longrightarrow> inv1 (run1 E es s)"
  by (induction es arbitrary: s) (simp_all add: step1_inv1)

lemma init1_inv1: "inv1 init1"
  by (simp add: inv1_def init1_def idents_ok_def)

lemma step1_track:
  "nextIdent1 s \<le> nextIdent1 (step1 E e s) \<and>
   (\<forall>c\<in>set (obstacles1 (step1 E e s)).
      (\<exists>b\<in>set (obstacles1 s). same_lane b c) \<or> nextIdent1 s \<le> ident c)"
proof (cases e)
  case (Frame1 f)
  then show ?thesis using animate1_shape [of E f s] by simp
next
  case (KeyDown key)
  have "obstacles1 (keydown1 key s) = obstacles1 s" "nextIdent1 (keydown1 key s) = nextIdent1 s"
    by (simp_all add: keydown1_def)
  then show ?thesis using KeyDown same_lane_refl by auto
next
  case (LoadSuccess1 k)
  then show ?thesis using same_lane_refl by (auto simp: loadSuccess1_def Let_def)
next
  case (LoadError1 k)
  then show ?thesis using same_lane_refl by (auto simp: loadError1_def)
qed

lemma run1_track:
  "\<forall>c\<in>set (obstacles1 (run1 E es s)).
     (\<exists>b\<in>set (obstacles1 s). same_lane b c) \<or> nextIdent1 s \<le> ident c"
proof (induction es arbitrary: s)
  case Nil
  then show ?case using same_lane_refl by auto
next
  case (Cons e es)
  let ?s' = "step1 E e s"
  show ?case
  proof
    fix c
    assume "c \<in> set (obstacles1 (run1 E (e # es) s))"
    then have "c \<in> set (obstacles1 (run1 E es ?s'))" by simp
    with Cons.IH [of ?s']
    have "(\<exists>b1\<in>set (obstacles1 ?s'). same_lane b1 c) \<or> nextIdent1 ?s' \<le> ident c" by blast
    then show "(\<exists>b\<in>set (obstacles1 s). same_lane b c) \<or> nextIdent1 s \<le> ident c"
    proof
      assume "\<exists>b1\<in>set (obstacles1 ?s'). same_lane b1 c"
      then obtain b1 where b1: "b1 \<in> set (obstacles1 ?s')" "same_lane b1 c" by blast
      from step1_track [of s E e] b1(1)
      have "(\<exists>b\<in>set (obstacles1 s). same_lane b b1) \<or> nextIdent1 s \<le> ident b1" by blast
      then show ?thesis
      proof
        assume "\<exists>b\<in>set (obstacles1 s). same_lane b b1"
        then show ?thesis using b1(2) same_lane_trans by blast
      next
        assume "nextIdent1 s \<le> ident b1"
        then show ?thesis using b1(2) by (simp add: same_lane_def)
      qed
    next
      assume "nextIdent1 ?s' \<le> ident c"
      then show ?thesis using step1_track [of s E e] by auto
    qed
  qed
qed

lemma spawn_run2_eval:
  "obstacles2 (run2 (cubeEngine 0.25 0.25)
      [Frame2 (sampleFrame2 3 3 rnd0), LoadSuccess2 0 rndHalf rnd0] init2)
   = [sampleObstacle 0 ''jump1.glb'' 0 (-20)]"
  by (simp add: frame2_unfold samples constants2 configuration_of_def)

lemma spawn_run1_eval:
  "obstacles1 (run1 (cubeEngine 0.5 0.25)
      [Frame1 (sampleFrame1 2001), LoadSuccess1 0, Frame1 (sampleFrame1 2002)] init1)
   = [advance (sampleObstacle1 0 0 (-20))]"
  by (simp add: samples1 samples constants1 animate1_def spawnObstacle1_def loadSuccess1_def
      advance_def intersectsBox_def random_index_def splice1_def Let_def)

subsection \<open>Themes\<close>

lemmas run_unfold = frame2_unfold samples constants2 configuration_of_def
  collisionDetected_iff overlaps2_def intersectsBox_def

lemma theme_table:
  "i < length themeKeys \<Longrightarrow>
   map_of obstacleThemes (themeKeys ! i) = Some (themeModelsOf i) \<and> themeModelsOf i \<noteq> []"
proof -
  assume "i < length themeKeys"
  then have "i = 0 \<or> i = 1 \<or> i = 2 \<or> i = 3"
    by (auto simp: themeKeys_def obstacleThemes_def)
  then show ?thesis
    by (elim disjE) (simp_all add: themeKeys_def obstacleThemes_def themeModelsOf_def)
qed

lemma switchTheme_ok: "theme_ok s \<Longrightarrow> theme_ok (switchTheme s)"
proof -
  have "0 < length themeKeys" by (simp add: themeKeys_def obstacleThemes_def)
  then show "theme_ok s \<Longrightarrow> theme_ok (switchTheme s)"
    by (simp add: theme_ok_def switchTheme_def)
qed

lemma switchTheme_kept:
  "obstacles2 (switchTheme s) = obstacles2 s \<and> pending2 (switchTheme s) = pending2 s \<and>
   nextIdent2 (switchTheme s) = nextIdent2 s \<and> console2 (switchTheme s) = console2 s \<and>
   loadedObstacleAssets (switchTheme s) = loadedObstacleAssets s"
  by (simp add: switchTheme_def)

lemma placeObstacle_theme:
  "currentThemeIndex (placeObstacle name rl rz s) = currentThemeIndex s \<and>
   currentThemeName (placeObstacle name rl rz s) = currentThemeName s \<and>
   obstaclesSpawnedInCurrentTheme (placeObstacle name rl rz s) =
     obstaclesSpawnedInCurrentTheme s + 1 \<and>
   pending2 (placeObstacle name rl rz s) = pending2 s"
  by (simp add: placeObstacle_def Let_def)

lemma spawnObstacle2_theme:
  "currentThemeIndex (spawnObstacle2 rm rl rz s) = currentThemeIndex (switchTheme s) \<and>
   currentThemeName (spawnObstacle2 rm rl rz s) = currentThemeName (switchTheme s)"
  by (simp add: spawnObstacle2_def Let_def placeObstacle_theme split: option.split)

lemma spawnObstacle2_index:
  "currentThemeIndex (spawnObstacle2 rm rl rz s) =
     (if obstaclesSpawnedInCurrentTheme s \<ge> maxObstaclesPerTheme
      then (currentThemeIndex s + 1) mod length themeKeys else currentThemeIndex s)"
  by (simp add: spawnObstacle2_theme switchTheme_def)

lemma step2_theme:
  "(currentThemeIndex (step2 E e s) = currentThemeIndex s \<and>
    currentThemeName (step2 E e s) = currentThemeName s) \<or>
   (currentThemeIndex (step2 E e s) = currentThemeIndex (switchTheme s) \<and>
    currentThemeName (step2 E e s) = currentThemeName (switchTheme s))"
proof (cases e)
  case (Frame2 f)
  show ?thesis
  proof (cases "isGameOver2 s")
    case True
    then show ?thesis using Frame2 by (simp add: animate2_def)
  next
    case False
    let ?s1 = "s\<lparr>distanceCovered2 :=
      dadd (fl (distanceCovered2 s)) (dmul (fl playerSpeed) (fl (deltaTime f)))\<rparr>"
    let ?s3 = "removeOffscreen (collisionLoop E (obstacles2 ?s1) ?s1)"
    have k: "currentThemeIndex ?s3 = currentThemeIndex s" "currentThemeName ?s3 = currentThemeName s"
      "obstaclesSpawnedInCurrentTheme ?s3 = obstaclesSpawnedInCurrentTheme s"
      by (simp_all add: removeOffscreen_def removalLoop_kept collisionLoop_kept)
    then have sw: "currentThemeIndex (switchTheme ?s3) = currentThemeIndex (switchTheme s)"
      "currentThemeName (switchTheme ?s3) = currentThemeName (switchTheme s)"
      by (simp_all add: switchTheme_def)
    have a: "step2 E e s = spawnCheck f ?s3"
      using False Frame2 by (simp add: animate2_def Let_def)
    show ?thesis
    proof (cases "dsub (fl (currentTime f)) (fl (lastSpawnTime2 ?s3)) > currentSpawnInterval (distanceCovered2 ?s3)
         \<and> length (obstacles2 ?s3) < maxObstaclesInScene")
      case True
      then have "spawnCheck f ?s3 =
          (spawnObstacle2 (rndModel f) (rndLane f) (rndDepth f) ?s3)\<lparr>lastSpawnTime2 := currentTime f\<rparr>"
        by (simp add: spawnCheck_def)
      then have "currentThemeIndex (step2 E e s) = currentThemeIndex (switchTheme s)"
        "currentThemeName (step2 E e s) = currentThemeName (switchTheme s)"
        unfolding a using sw by (simp_all add: spawnObstacle2_theme)
      then show ?thesis by simp
    next
      case False
      have "spawnCheck f ?s3 = ?s3" using False by (auto simp: spawnCheck_def)
      then show ?thesis unfolding a using k by simp
    qed
  qed
next
  case (LoadSuccess2 k rl rz)
  then show ?thesis by (simp add: loadSuccess2_def placeObstacle_theme)
next
  case (LoadError2 k)
  then show ?thesis by (simp add: loadError2_def)
qed

lemma step2_theme_ok: "theme_ok s \<Longrightarrow> theme_ok (step2 E e s)"
  using step2_theme [of E e s] switchTheme_ok [of s] by (auto simp: theme_ok_def)

lemma run2_theme_ok: "theme_ok s \<Longrightarrow> theme_ok (run2 E es s)"
  by (induction es arbitrary: s) (simp_all add: step2_theme_ok)

lemma init2_theme_ok: "theme_ok init2"
  by (simp add: theme_ok_def init2_def themeKeys_def obstacleThemes_def)

lemma step2_index:
  "currentThemeIndex (step2 E e s) = currentThemeIndex s \<or>
   currentThemeIndex (step2 E e s) = (currentThemeIndex s + 1) mod length themeKeys"
  using step2_theme [of E e s] by (auto simp: switchTheme_def)

lemma spawnCompleted_counts:
  assumes "theme_ok s"
  shows "\<exists>b. obstacles2 (spawnCompleted rm rl rz s) = obstacles2 s @ [b] \<and>
           of_theme (currentThemeIndex (switchTheme s)) b \<and>
           obstaclesSpawnedInCurrentTheme (spawnCompleted rm rl rz s) =
             obstaclesSpawnedInCurrentTheme (switchTheme s) + 1 \<and>
           currentThemeIndex (spawnCompleted rm rl rz s) = currentThemeIndex (switchTheme s) \<and>
           theme_ok (spawnCompleted rm rl rz s)"
proof -
  let ?s1 = "switchTheme s"
  let ?i = "currentThemeIndex ?s1"
  let ?models = "themeModelsOf ?i"
  let ?name = "?models ! random_index rm (length ?models)"
  from switchTheme_ok [OF assms] have ok1: "theme_ok ?s1" .
  then have i: "?i < length themeKeys" and nm: "currentThemeName ?s1 = themeKeys ! ?i"
    by (simp_all add: theme_ok_def)
  from theme_table [OF i] nm have
    m: "map_of obstacleThemes (currentThemeName ?s1) = Some ?models" and ne: "?models \<noteq> []"
    by simp_all
  have "random_index rm (length ?models) < length ?models"
    using ne by (intro random_index_less) simp
  then have mem: "?name \<in> set ?models" by (rule nth_mem)
  show ?thesis
  proof (cases "?name \<in> set (loadedObstacleAssets ?s1)")
    case True
    then have sp: "spawnObstacle2 rm rl rz s = placeObstacle ?name rl rz ?s1"
      using m ne by (simp add: spawnObstacle2_def Let_def)
    have pe: "pending2 (placeObstacle ?name rl rz ?s1) = pending2 s"
      by (simp add: placeObstacle_theme switchTheme_kept)
    have r: "spawnCompleted rm rl rz s = placeObstacle ?name rl rz ?s1"
      by (simp add: spawnCompleted_def Let_def sp pe)
    from placeObstacle_appends [of ?name rl rz ?s1] obtain c where
      c: "obstacles2 (placeObstacle ?name rl rz ?s1) = obstacles2 ?s1 @ [c]" "otype c = Some ?name"
      by blast
    have "of_theme ?i c" using c(2) mem by (simp add: of_theme_def)
    moreover have "theme_ok (placeObstacle ?name rl rz ?s1)"
      using ok1 by (simp add: theme_ok_def placeObstacle_theme)
    ultimately show ?thesis unfolding r using c(1)
      by (simp add: placeObstacle_theme switchTheme_kept)
  next
    case False
    then have sp: "spawnObstacle2 rm rl rz s = ?s1\<lparr>pending2 := pending2 ?s1 @ [?name]\<rparr>"
      using m ne by (simp add: spawnObstacle2_def Let_def)
    let ?s2 = "?s1\<lparr>pending2 := pending2 ?s1 @ [?name]\<rparr>"
    let ?s3 = "?s2\<lparr>pending2 := splice1 (length (pending2 s)) (pending2 ?s2),
                  loadedObstacleAssets := List.insert ?name (loadedObstacleAssets ?s2)\<rparr>"
    have r: "spawnCompleted rm rl rz s = placeObstacle ?name rl rz ?s3"
      by (simp add: spawnCompleted_def Let_def sp switchTheme_kept loadSuccess2_def nth_append)
    from placeObstacle_appends [of ?name rl rz ?s3] obtain c where
      c: "obstacles2 (placeObstacle ?name rl rz ?s3) = obstacles2 ?s3 @ [c]" "otype c = Some ?name"
      by blast
    have "of_theme ?i c" using c(2) mem by (simp add: of_theme_def)
    moreover have "theme_ok (placeObstacle ?name rl rz ?s3)"
      using ok1 by (simp add: theme_ok_def placeObstacle_theme)
    ultimately show ?thesis unfolding r using c(1)
      by (simp add: placeObstacle_theme switchTheme_kept)
  qed
qed

lemma spawnsCompleted_counts:
  "theme_ok s \<Longrightarrow> obstaclesSpawnedInCurrentTheme s + length rs \<le> maxObstaclesPerTheme \<Longrightarrow>
   currentThemeIndex (spawnsCompleted rs s) = currentThemeIndex s \<and>
   obstaclesSpawnedInCurrentTheme (spawnsCompleted rs s) =
     obstaclesSpawnedInCurrentTheme s + length rs \<and>
   theme_ok (spawnsCompleted rs s) \<and>
   (\<exists>new. obstacles2 (spawnsCompleted rs s) = obstacles2 s @ new \<and> length new = length rs \<and>
      (\<forall>b\<in>set new. of_theme (currentThemeIndex s) b))"
proof (induction rs arbitrary: s)
  case Nil
  then show ?case by simp
next
  case (Cons r rs)
  obtain rm rl rz where r: "r = (rm, rl, rz)" by (cases r) auto
  from Cons.prems(2) have lt: "obstaclesSpawnedInCurrentTheme s < maxObstaclesPerTheme" by simp
  then have sw: "switchTheme s = s" by (simp add: switchTheme_def)
  let ?s' = "spawnCompleted rm rl rz s"
  from spawnCompleted_counts [OF Cons.prems(1), of rm rl rz] obtain b where
    b: "obstacles2 ?s' = obstacles2 s @ [b]" "of_theme (currentThemeIndex s) b"
      "obstaclesSpawnedInCurrentTheme ?s' = obstaclesSpawnedInCurrentTheme s + 1"
      "currentThemeIndex ?s' = currentThemeIndex s" "theme_ok ?s'"
    unfolding sw by blast
  have le: "obstaclesSpawnedInCurrentTheme ?s' + length rs \<le> maxObstaclesPerTheme"
    using Cons.prems(2) b(3) by simp
  from Cons.IH [OF b(5) le] obtain new where
    ih: "currentThemeIndex (spawnsCompleted rs ?s') = currentThemeIndex ?s'"
      "obstaclesSpawnedInCurrentTheme (spawnsCompleted rs ?s') =
         obstaclesSpawnedInCurrentTheme ?s' + length rs"
      "theme_ok (spawnsCompleted rs ?s')"
      "obstacles2 (spawnsCompleted rs ?s') = obstacles2 ?s' @ new" "length new = length rs"
      "\<forall>c\<in>set new. of_theme (currentThemeIndex ?s') c"
    by blast
  have "obstacles2 (spawnsCompleted (r # rs) s) = obstacles2 s @ (b # new)"
    "length (b # new) = length (r # rs)"
    "\<forall>c\<in>set (b # new). of_theme (currentThemeIndex s) c"
    using ih(4,5,6) b(1,2,4) r by simp_all
  then have "\<exists>new. obstacles2 (spawnsCompleted (r # rs) s) = obstacles2 s @ new \<and>
      length new = length (r # rs) \<and> (\<forall>b\<in>set new. of_theme (currentThemeIndex s) b)"
    by blast
  then show ?case using ih(1,2,3) b(3,4) r by simp
qed

lemma race_eval:
  "obstaclesSpawnedInCurrentTheme (run2 (cubeEngine 0.25 0.25) raceEvents init2) = 6"
  "currentThemeIndex (run2 (cubeEngine 0.25 0.25) raceEvents init2) = 0"
  "currentThemeName (run2 (cubeEngine 0.25 0.25) raceEvents init2) = ''jumps''"
  "map otype (obstacles2 (run2 (cubeEngine 0.25 0.25) raceEvents init2)) =
     [Some ''jump1.glb'', Some ''jump1.glb'', Some ''jump1.glb'', Some ''jump1.glb'',
      Some ''jump2.glb'', Some ''jump2.glb'']"
  by (simp_all add: raceEvents_def run_unfold obstacleConfigurations_def sample_types)

subsection \<open>Failed loads\<close>

lemma loadError2_kept:
  "isGameOver2 (loadError2 k s) = isGameOver2 s \<and>
   distanceCovered2 (loadError2 k s) = distanceCovered2 s \<and>
   lastSpawnTime2 (loadError2 k s) = lastSpawnTime2 s \<and>
   currentThemeIndex (loadError2 k s) = currentThemeIndex s \<and>
   currentThemeName (loadError2 k s) = currentThemeName s \<and>
   obstaclesSpawnedInCurrentTheme (loadError2 k s) = obstaclesSpawnedInCurrentTheme s \<and>
   obstacles2 (loadError2 k s) = obstacles2 s \<and>
   scene2 (loadError2 k s) = scene2 s \<and>
   loadedObstacleAssets (loadError2 k s) = loadedObstacleAssets s \<and>
   playerColor2 (loadError2 k s) = playerColor2 s \<and>
   nextIdent2 (loadError2 k s) = nextIdent2 s"
  by (simp add: loadError2_def)

lemma loadError2_log:
  "k < length (pending2 s) \<Longrightarrow>
   console2 (loadError2 k s) = console2 s @ [LoadFailed (pending2 s ! k)] \<and>
   pending2 (loadError2 k s) = splice1 k (pending2 s) \<and>
   length (pending2 (loadError2 k s)) < length (pending2 s)"
  by (simp add: loadError2_def splice1_def)

lemma splice1_last: "splice1 (length xs) (xs @ [x]) = xs"
  by (simp add: splice1_def)

lemma failed_attempt2:
  "pending2 (spawnObstacle2 rm rl rz s) = pending2 s @ [name] \<Longrightarrow>
   loadError2 (length (pending2 s)) (spawnObstacle2 rm rl rz s) =
     (switchTheme s)\<lparr>console2 := console2 s @ [LoadFailed name]\<rparr>"
proof -
  assume a: "pending2 (spawnObstacle2 rm rl rz s) = pending2 s @ [name]"
  let ?s1 = "switchTheme s"
  have k: "pending2 ?s1 = pending2 s" "console2 ?s1 = console2 s"
    by (simp_all add: switchTheme_kept)
  show ?thesis
  proof (cases "map_of obstacleThemes (currentThemeName ?s1)")
    case None
    then have "pending2 (spawnObstacle2 rm rl rz s) = pending2 s"
      by (simp add: spawnObstacle2_def Let_def k)
    with a show ?thesis by simp
  next
    case (Some themeModels)
    show ?thesis
    proof (cases "themeModels = []")
      case True
      then have "pending2 (spawnObstacle2 rm rl rz s) = pending2 s"
        using Some by (simp add: spawnObstacle2_def Let_def k)
      with a show ?thesis by simp
    next
      case ne: False
      let ?f = "themeModels ! random_index rm (length themeModels)"
      show ?thesis
      proof (cases "?f \<in> set (loadedObstacleAssets ?s1)")
        case True
        then have "pending2 (spawnObstacle2 rm rl rz s) = pending2 s"
          using Some ne by (simp add: spawnObstacle2_def Let_def k placeObstacle_theme)
        with a show ?thesis by simp
      next
        case False
        then have sp: "spawnObstacle2 rm rl rz s = ?s1\<lparr>pending2 := pending2 s @ [?f]\<rparr>"
          using Some ne by (simp add: spawnObstacle2_def Let_def k)
        with a have n: "?f = name" by simp
        show ?thesis unfolding sp n
          by (simp add: loadError2_def splice1_last k)
      qed
    qed
  qed
qed

lemma failed_attempt1:
  "loadError1 (length (pending1 t)) (spawnObstacle1 rl rm t) =
     t\<lparr>console1 := console1 t @
          [LoadFailed (obstacleModelPath @
             obstacleModelFiles1 ! random_index rm (length obstacleModelFiles1))]\<rparr>"
  by (simp add: loadError1_def spawnObstacle1_def Let_def splice1_last)

lemma failed_eval:
  "obstaclesSpawnedInCurrentTheme (run2 (cubeEngine 0.25 0.25) fiveSpawns init2) = 5"
  "currentThemeIndex (run2 (cubeEngine 0.25 0.25) fiveSpawns init2) = 0"
  "lastSpawnTime2 (run2 (cubeEngine 0.25 0.25) fiveSpawns init2) = 15"
  "console2 (run2 (cubeEngine 0.25 0.25) fiveSpawns init2) = []"
  "obstaclesSpawnedInCurrentTheme
     (run2 (cubeEngine 0.25 0.25) (fiveSpawns @ failedSpawn) init2) = 0"
  "currentThemeIndex (run2 (cubeEngine 0.25 0.25) (fiveSpawns @ failedSpawn) init2) = 1"
  "lastSpawnTime2 (run2 (cubeEngine 0.25 0.25) (fiveSpawns @ failedSpawn) init2) = 18"
  "console2 (run2 (cubeEngine 0.25 0.25) (fiveSpawns @ failedSpawn) init2)
     = [LoadFailed ''CoveredTunnel.glb'']"
  "obstacles2 (run2 (cubeEngine 0.25 0.25) (fiveSpawns @ failedSpawn) init2)
     = obstacles2 (run2 (cubeEngine 0.25 0.25) fiveSpawns init2)"
  by (simp_all add: fiveSpawns_def failedSpawn_def run_unfold obstacleConfigurations_def
      sample_types)

subsection \<open>No live obstacle stays behind the removal line\<close>

lemma moveLoop_within:
  assumes "\<And>b. intersectsBox pb (Box3_obstacle E b) \<Longrightarrow> vz (position b) \<le> removalZPosition"
  shows "n \<le> length (obstacles1 s) \<Longrightarrow>
         \<forall>b\<in>set (obstacles1 s). vz (position b) \<le> removalZPosition \<Longrightarrow>
         \<forall>b\<in>set (obstacles1 (moveLoop E pb n s)). vz (position b) \<le> removalZPosition"
proof (induction n arbitrary: s)
  case 0
  then show ?case by simp
next
  case (Suc n)
  let ?obs = "obstacles1 s"
  let ?o = "advance (?obs ! n)"
  let ?xs = "?obs[n := ?o]"
  from Suc.prems have n: "n < length ?obs" by simp
  have upd: "set ?xs \<subseteq> insert ?o (set ?obs)" by (rule set_update_subset_insert)
  show ?case
  proof (cases "intersectsBox pb (Box3_obstacle E ?o)")
    case True
    from assms [OF True] have "vz (position ?o) \<le> removalZPosition" .
    then have "\<forall>b\<in>set ?xs. vz (position b) \<le> removalZPosition"
      using upd Suc.prems(2) by blast
    then show ?thesis using True by (simp add: Let_def)
  next
    case nh: False
    show ?thesis
    proof (cases "vz (position ?o) > removalZPosition")
      case False
      let ?s' = "s\<lparr>obstacles1 := ?xs\<rparr>"
      have step: "moveLoop E pb (Suc n) s = moveLoop E pb n ?s'"
        using nh False by (simp add: Let_def)
      have len: "n \<le> length (obstacles1 ?s')" using n by simp
      have "\<forall>b\<in>set ?xs. vz (position b) \<le> removalZPosition"
        using upd Suc.prems(2) False by fastforce
      then have "\<forall>b\<in>set (obstacles1 ?s'). vz (position b) \<le> removalZPosition" by simp
      from Suc.IH [OF len this] show ?thesis unfolding step .
    next
      case True
      let ?s' = "s\<lparr>obstacles1 := ?xs\<rparr>
                  \<lparr>scene1 := scene_remove (ident ?o) (scene1 s),
                   obstacles1 := splice1 n ?xs\<rparr>"
      have step: "moveLoop E pb (Suc n) s = moveLoop E pb n ?s'"
        using nh True by (simp add: Let_def)
      have len: "n \<le> length (obstacles1 ?s')" using n by (simp add: splice1_def)
      have "splice1 n ?xs = take n ?obs @ drop (Suc n) ?obs" using n by (simp add: splice1_def)
      then have "set (obstacles1 ?s') \<subseteq> set ?obs"
        by (auto dest: in_set_takeD in_set_dropD)
      then have "\<forall>b\<in>set (obstacles1 ?s'). vz (position b) \<le> removalZPosition"
        using Suc.prems(2) by blast
      from Suc.IH [OF len this] show ?thesis unfolding step .
    qed
  qed
qed

lemma beforeLoop1_player:
  "vy (playerPosition1 (beforeLoop1 f s)) = vy (playerPosition1 s) \<and>
   vz (playerPosition1 (beforeLoop1 f s)) = vz (playerPosition1 s)"
  by (simp add: beforeLoop1_def Let_def spawnObstacle1_def)

lemma animate1_within:
  assumes "sane_engine E" and "within1 s"
  shows "within1 (animate1 E f s)"
proof (cases "isGameOver1 s")
  case True
  then show ?thesis using assms(2) by (simp add: animate1_def)
next
  case False
  let ?s2 = "beforeLoop1 f s"
  let ?p = "(playerPosition1 s)\<lparr>vx := lanePositions1 ! nat (currentLaneIndex s)\<rparr>"
  from assms(2) have o: "\<forall>b\<in>set (obstacles1 s). vz (position b) \<le> removalZPosition"
    and y: "vy (playerPosition1 s) = 0.5" and z: "vz (playerPosition1 s) = 0"
    by (simp_all add: within1_def)
  have p: "?p = \<lparr>vx = lanePositions1 ! nat (currentLaneIndex s), vy = 0.5, vz = 0\<rparr>"
    using y z by simp
  have hit: "\<And>b. intersectsBox (playerBox1 E s) (Box3_obstacle E b) \<Longrightarrow>
                 vz (position b) \<le> removalZPosition"
    using assms(1) unfolding sane_engine_def playerBox1_def p by blast
  have len: "length (obstacles1 s) \<le> length (obstacles1 ?s2)" by (simp add: beforeLoop1_kept)
  have o2: "\<forall>b\<in>set (obstacles1 ?s2). vz (position b) \<le> removalZPosition"
    using o by (simp add: beforeLoop1_kept)
  from moveLoop_within [of "playerBox1 E s" E, OF hit len o2]
  have r: "\<forall>b\<in>set (obstacles1 (moveLoop E (playerBox1 E s) (length (obstacles1 s)) ?s2)).
             vz (position b) \<le> removalZPosition" .
  show ?thesis unfolding animate1_running [OF False] within1_def
    using r y z by (simp add: moveLoop_kept beforeLoop1_player)
qed

lemma step1_within: "sane_engine E \<Longrightarrow> within1 s \<Longrightarrow> within1 (step1 E e s)"
proof (cases e)
  case (Frame1 f)
  assume "sane_engine E" "within1 s"
  then show ?thesis using Frame1 by (simp add: animate1_within)
next
  case (KeyDown key)
  assume "within1 s"
  then show ?thesis using KeyDown by (simp add: within1_def keydown1_def)
next
  case (LoadSuccess1 k)
  assume "within1 s"
  then show ?thesis using LoadSuccess1
    by (simp add: within1_def loadSuccess1_def Let_def spawnZPosition_def removalZPosition_def)
next
  case (LoadError1 k)
  assume "within1 s"
  then show ?thesis using LoadError1 by (simp add: within1_def loadError1_def)
qed

lemma run1_within: "sane_engine E \<Longrightarrow> within1 s \<Longrightarrow> within1 (run1 E es s)"
  by (induction es arbitrary: s) (simp_all add: step1_within)

lemma init1_within: "within1 init1"
  by (simp add: within1_def init1_def)

lemma cubeEngine_sane: "sane_engine (cubeEngine 0.5 0.25)"
  by (simp add: sane_engine_def cubeEngine_def boxAround_def intersectsBox_def
      removalZPosition_def)

lemma run2_never_behind:
  "\<forall>b\<in>set (obstacles2 (run2 E es init2)). \<not> vz (position b) > removalZ2"
  using run2_inv2 [OF init2_inv2, of E es]
  by (auto simp: inv2_def placed2_def removalZ2_def cameraZ2_def)

subsection \<open>Removal, frame by frame\<close>

lemma removal_frames:
  "obstacles2 (removeOffscreen s) =
     filter (\<lambda>ob. \<not> vz (position ob) > removalZ2) (obstacles2 s)
   \<and> scene2 (removeOffscreen s) =
     filter (\<lambda>j. j \<notin> set (map ident (filter (\<lambda>ob. vz (position ob) > removalZ2)
                                              (obstacles2 s))))
       (scene2 s)
   \<and> (\<not> isGameOver2 s \<longrightarrow>
        (\<forall>ob\<in>set (obstacles2 (animate2 E f s)). \<not> vz (position ob) > removalZ2))
   \<and> (\<not> isGameOver1 t \<and> \<not> isGameOver1 (animate1 E' g t) \<longrightarrow>
        obstacles1 (animate1 E' g t) = filter keep1 (map advance (obstacles1 t))
        \<and> scene1 (animate1 E' g t) =
            filter (\<lambda>j. j \<notin> set (map ident (filter (\<lambda>ob. \<not> keep1 (advance ob))
                                                   (obstacles1 t))))
              (scene1 t)
        \<and> (\<forall>ob\<in>set (obstacles1 (animate1 E' g t)). \<not> vz (position ob) > removalZPosition))"
proof (intro conjI impI)
  show "obstacles2 (removeOffscreen s) =
     filter (\<lambda>ob. \<not> vz (position ob) > removalZ2) (obstacles2 s)"
    by (rule removeOffscreen_obstacles)
  show "scene2 (removeOffscreen s) =
     filter (\<lambda>j. j \<notin> set (map ident (filter (\<lambda>ob. vz (position ob) > removalZ2)
                                              (obstacles2 s))))
       (scene2 s)"
    by (simp add: removeOffscreen_scene image_def conj_commute cong: conj_cong)
next
  assume "\<not> isGameOver2 s"
  from animate2_obstacles [OF this, of E f] obtain new where
    o: "obstacles2 (animate2 E f s) =
          filter (\<lambda>ob. \<not> vz (position ob) > removalZ2) (obstacles2 s) @ new"
    and z: "\<forall>ob\<in>set new. vz (position ob) \<le> - 20"
    by blast
  have "\<forall>ob\<in>set new. \<not> vz (position ob) > removalZ2"
    using z by (auto simp: removalZ2_def cameraZ2_def)
  then show "\<forall>ob\<in>set (obstacles2 (animate2 E f s)). \<not> vz (position ob) > removalZ2"
    unfolding o by auto
next
  assume a: "\<not> isGameOver1 t \<and> \<not> isGameOver1 (animate1 E' g t)"
  then have nh: "\<forall>ob\<in>set (obstacles1 t). \<not> hits1 E' t ob"
    by (simp add: animate1_isGameOver)
  from a have r: "\<not> isGameOver1 t" by simp
  from animate1_nohit [OF r nh, of g]
  show "obstacles1 (animate1 E' g t) = filter keep1 (map advance (obstacles1 t))"
    and "scene1 (animate1 E' g t) =
            filter (\<lambda>j. j \<notin> set (map ident (filter (\<lambda>ob. \<not> keep1 (advance ob))
                                                   (obstacles1 t))))
              (scene1 t)"
    and "\<forall>ob\<in>set (obstacles1 (animate1 E' g t)). \<not> vz (position ob) > removalZPosition"
    by (auto simp: keep1_def image_def conj_commute cong: conj_cong)
qed

text \<open>
  The parts of the theme rotation that hold in every run: the index moves only by plus one
  modulo the number of themes, in \<^verbatim>\<open>spawnObstacle\<close>; in every state the script reaches
  the index is in range and the theme name is the key at that index. And when each spawn is
  completed before the next call of \<^verbatim>\<open>spawnObstacle\<close>, five spawns from a count of 0
  stay in the theme and the sixth is made under the next one.
\<close>

lemma theme_rotation_completed:
  "theme_ok (run2 E es init2)
   \<and> (currentThemeIndex (step2 E e s) = currentThemeIndex s \<or>
      currentThemeIndex (step2 E e s) = (currentThemeIndex s + 1) mod length themeKeys)
   \<and> currentThemeIndex (spawnObstacle2 rm rl rz s) =
       (if obstaclesSpawnedInCurrentTheme s \<ge> maxObstaclesPerTheme
        then (currentThemeIndex s + 1) mod length themeKeys else currentThemeIndex s)
   \<and> maxObstaclesPerTheme = 5
   \<and> (theme_ok t \<and> obstaclesSpawnedInCurrentTheme t = 0 \<and> length rs = 5 \<longrightarrow>
        currentThemeIndex (spawnsCompleted rs t) = currentThemeIndex t
        \<and> obstaclesSpawnedInCurrentTheme (spawnsCompleted rs t) = 5
        \<and> (\<exists>new. obstacles2 (spawnsCompleted rs t) = obstacles2 t @ new \<and> length new = 5 \<and>
              (\<forall>b\<in>set new. of_theme (currentThemeIndex t) b))
        \<and> currentThemeIndex (spawnCompleted rm' rl' rz' (spawnsCompleted rs t)) =
            (currentThemeIndex t + 1) mod length themeKeys
        \<and> obstaclesSpawnedInCurrentTheme (spawnCompleted rm' rl' rz' (spawnsCompleted rs t)) = 1
        \<and> (\<exists>b. obstacles2 (spawnCompleted rm' rl' rz' (spawnsCompleted rs t)) =
                  obstacles2 (spawnsCompleted rs t) @ [b] \<and>
                of_theme ((currentThemeIndex t + 1) mod length themeKeys) b))"
proof (intro conjI impI)
  show "theme_ok (run2 E es init2)" by (rule run2_theme_ok [OF init2_theme_ok])
  show "currentThemeIndex (step2 E e s) = currentThemeIndex s \<or>
      currentThemeIndex (step2 E e s) = (currentThemeIndex s + 1) mod length themeKeys"
    by (rule step2_index)
  show "currentThemeIndex (spawnObstacle2 rm rl rz s) =
       (if obstaclesSpawnedInCurrentTheme s \<ge> maxObstaclesPerTheme
        then (currentThemeIndex s + 1) mod length themeKeys else currentThemeIndex s)"
    by (rule spawnObstacle2_index)
  show "maxObstaclesPerTheme = 5" by (simp add: maxObstaclesPerTheme_def)
next
  assume a: "theme_ok t \<and> obstaclesSpawnedInCurrentTheme t = 0 \<and> length rs = 5"
  then have ok: "theme_ok t" and le: "obstaclesSpawnedInCurrentTheme t + length rs \<le> maxObstaclesPerTheme"
    by (simp_all add: maxObstaclesPerTheme_def)
  let ?s5 = "spawnsCompleted rs t"
  from spawnsCompleted_counts [OF ok le] a have
    f: "currentThemeIndex ?s5 = currentThemeIndex t" "obstaclesSpawnedInCurrentTheme ?s5 = 5"
      "theme_ok ?s5"
      "\<exists>new. obstacles2 ?s5 = obstacles2 t @ new \<and> length new = 5 \<and>
              (\<forall>b\<in>set new. of_theme (currentThemeIndex t) b)"
    by simp_all
  have sw: "currentThemeIndex (switchTheme ?s5) = (currentThemeIndex t + 1) mod length themeKeys"
    "obstaclesSpawnedInCurrentTheme (switchTheme ?s5) = 0"
    using f(1,2) by (simp_all add: switchTheme_def maxObstaclesPerTheme_def)
  from spawnCompleted_counts [OF f(3), of rm' rl' rz'] obtain b where
    b: "obstacles2 (spawnCompleted rm' rl' rz' ?s5) = obstacles2 ?s5 @ [b]"
      "of_theme ((currentThemeIndex t + 1) mod length themeKeys) b"
      "obstaclesSpawnedInCurrentTheme (spawnCompleted rm' rl' rz' ?s5) = 1"
      "currentThemeIndex (spawnCompleted rm' rl' rz' ?s5) =
         (currentThemeIndex t + 1) mod length themeKeys"
    unfolding sw by auto
  show "currentThemeIndex ?s5 = currentThemeIndex t" by (rule f(1))
  show "obstaclesSpawnedInCurrentTheme ?s5 = 5" by (rule f(2))
  show "\<exists>new. obstacles2 ?s5 = obstacles2 t @ new \<and> length new = 5 \<and>
              (\<forall>b\<in>set new. of_theme (currentThemeIndex t) b)" by (rule f(4))
  show "currentThemeIndex (spawnCompleted rm' rl' rz' ?s5) =
            (currentThemeIndex t + 1) mod length themeKeys" by (rule b(4))
  show "obstaclesSpawnedInCurrentTheme (spawnCompleted rm' rl' rz' ?s5) = 1" by (rule b(3))
  show "\<exists>b. obstacles2 (spawnCompleted rm' rl' rz' ?s5) = obstacles2 ?s5 @ [b] \<and>
                of_theme ((currentThemeIndex t + 1) mod length themeKeys) b"
    using b(1,2) by blast
qed

section \<open>Theorems\<close>

text \<open>
  Claim C3. The interval that gates spawning (lines 477-486) is, for every distance,
  max(baseSpawnInterval - floor(distanceCovered / difficultyStepDistance) *
  spawnIntervalReductionFactor, minSpawnInterval), computed with the operations of the
  script's numbers. It is the number the gate compares: \<^verbatim>\<open>spawnCheck\<close> spawns and sets
  \<^verbatim>\<open>lastSpawnTime\<close> exactly when the time since the last spawn exceeds it and fewer than
  \<^verbatim>\<open>maxObstaclesInScene\<close> obstacles are live, and a frame of a running game applies the
  gate at the distance the frame has reached (line 406), after the removal pass. With the
  constants of the script (2.0, 0.1, 150, 0.75) the interval at distance 450 is 1.7, the
  number that the literal \<^verbatim>\<open>1.7\<close> denotes.
\<close>

theorem spawn_gate_interval:
  "currentSpawnInterval d =
     max (dsub (fl baseSpawnInterval)
            (dmul (real_of_int \<lfloor>ddiv (fl d) (fl difficultyStepDistance)\<rfloor>)
               (fl spawnIntervalReductionFactor)))
         (fl minSpawnInterval)
   \<and> spawnCheck f s =
       (if dsub (fl (currentTime f)) (fl (lastSpawnTime2 s))
             > max (dsub (fl baseSpawnInterval)
                      (dmul (real_of_int
                               \<lfloor>ddiv (fl (distanceCovered2 s)) (fl difficultyStepDistance)\<rfloor>)
                         (fl spawnIntervalReductionFactor)))
                   (fl minSpawnInterval)
           \<and> length (obstacles2 s) < maxObstaclesInScene
        then (spawnObstacle2 (rndModel f) (rndLane f) (rndDepth f) s)
               \<lparr>lastSpawnTime2 := currentTime f\<rparr>
        else s)
   \<and> animate2 E f s =
       (if isGameOver2 s then s
        else
          let s3 = removeOffscreen
                     (collisionLoop E (obstacles2 s)
                        (s\<lparr>distanceCovered2 :=
                             dadd (fl (distanceCovered2 s))
                               (dmul (fl playerSpeed) (fl (deltaTime f)))\<rparr>))
          in if dsub (fl (currentTime f)) (fl (lastSpawnTime2 s))
                  > currentSpawnInterval
                      (dadd (fl (distanceCovered2 s)) (dmul (fl playerSpeed) (fl (deltaTime f))))
                \<and> length (obstacles2 s3) < maxObstaclesInScene
             then (spawnObstacle2 (rndModel f) (rndLane f) (rndDepth f) s3)
                    \<lparr>lastSpawnTime2 := currentTime f\<rparr>
             else s3)
   \<and> baseSpawnInterval = 2.0 \<and> spawnIntervalReductionFactor = 0.1
   \<and> difficultyStepDistance = 150 \<and> minSpawnInterval = 0.75
   \<and> fl baseSpawnInterval = 2 \<and> fl difficultyStepDistance = 150
   \<and> fl minSpawnInterval = 0.75
   \<and> fl spawnIntervalReductionFactor = 3602879701896397 / 36028797018963968
   \<and> currentSpawnInterval 450 = fl 1.7
   \<and> fl 1.7 = 7656119366529843 / 4503599627370496"
proof -
  have a: "\<And>d. currentSpawnInterval d =
     max (dsub (fl baseSpawnInterval)
            (dmul (real_of_int \<lfloor>ddiv (fl d) (fl difficultyStepDistance)\<rfloor>)
               (fl spawnIntervalReductionFactor)))
         (fl minSpawnInterval)"
    by (simp add: currentSpawnInterval_def Let_def max_def)
  have b: "spawnCheck f s =
       (if dsub (fl (currentTime f)) (fl (lastSpawnTime2 s))
             > max (dsub (fl baseSpawnInterval)
                      (dmul (real_of_int
                               \<lfloor>ddiv (fl (distanceCovered2 s)) (fl difficultyStepDistance)\<rfloor>)
                         (fl spawnIntervalReductionFactor)))
                   (fl minSpawnInterval)
           \<and> length (obstacles2 s) < maxObstaclesInScene
        then (spawnObstacle2 (rndModel f) (rndLane f) (rndDepth f) s)
               \<lparr>lastSpawnTime2 := currentTime f\<rparr>
        else s)"
    unfolding spawnCheck_def a ..
  have c: "animate2 E f s =
       (if isGameOver2 s then s
        else
          let s3 = removeOffscreen
                     (collisionLoop E (obstacles2 s)
                        (s\<lparr>distanceCovered2 :=
                             dadd (fl (distanceCovered2 s))
                               (dmul (fl playerSpeed) (fl (deltaTime f)))\<rparr>))
          in if dsub (fl (currentTime f)) (fl (lastSpawnTime2 s))
                  > currentSpawnInterval
                      (dadd (fl (distanceCovered2 s)) (dmul (fl playerSpeed) (fl (deltaTime f))))
                \<and> length (obstacles2 s3) < maxObstaclesInScene
             then (spawnObstacle2 (rndModel f) (rndLane f) (rndDepth f) s3)
                    \<lparr>lastSpawnTime2 := currentTime f\<rparr>
             else s3)"
    by (simp add: animate2_def spawnCheck_def Let_def removeOffscreen_def removalLoop_kept
        collisionLoop_kept)
  have k: "baseSpawnInterval = 2.0" "spawnIntervalReductionFactor = 0.1"
    "difficultyStepDistance = 150" "minSpawnInterval = 0.75"
    by (simp_all add: baseSpawnInterval_def spawnIntervalReductionFactor_def
        difficultyStepDistance_def minSpawnInterval_def)
  have r: "fl baseSpawnInterval = 2" "fl difficultyStepDistance = 150"
    "fl minSpawnInterval = 0.75"
    "fl spawnIntervalReductionFactor = 3602879701896397 / 36028797018963968"
    by (simp_all add: baseSpawnInterval_def spawnIntervalReductionFactor_def
        difficultyStepDistance_def minSpawnInterval_def double_unfold Let_def)
  have l: "fl 1.7 = 7656119366529843 / 4503599627370496"
    by (simp add: double_unfold Let_def)
  have v: "currentSpawnInterval 450 = 7656119366529843 / 4503599627370496"
    by (simp add: currentSpawnInterval_def baseSpawnInterval_def
        spawnIntervalReductionFactor_def difficultyStepDistance_def minSpawnInterval_def
        double_unfold Let_def)
  show ?thesis using a [of d] b c k r l v by (simp only: simp_thms)
qed

text \<open>
  The gate at distance 1050, where rounding decides: seven times the double of one tenth is
  a little more than seven tenths, and the interval is the double just below 1.3. A frame
  at time 1.3 spawns; one at time 1.25 does not.
\<close>

theorem spawn_gate_interval_witness:
  "currentSpawnInterval 1050 = 5854679515581644 / 4503599627370496
   \<and> lastSpawnTime2 (spawnCheck (sampleFrame2 0 1.3 rnd0) (init2\<lparr>distanceCovered2 := 1050\<rparr>))
       = 1.3
   \<and> pending2 (spawnCheck (sampleFrame2 0 1.3 rnd0) (init2\<lparr>distanceCovered2 := 1050\<rparr>))
       = [''jump1.glb'']
   \<and> spawnCheck (sampleFrame2 0 1.25 rnd0) (init2\<lparr>distanceCovered2 := 1050\<rparr>)
       = init2\<lparr>distanceCovered2 := 1050\<rparr>
   \<and> lastSpawnTime2 (animate2 (cubeEngine 0.25 0.25) (sampleFrame2 1 1.3 rnd0)
        (init2\<lparr>distanceCovered2 := 1045\<rparr>)) = 1.3
   \<and> distanceCovered2 (animate2 (cubeEngine 0.25 0.25) (sampleFrame2 1 1.3 rnd0)
        (init2\<lparr>distanceCovered2 := 1045\<rparr>)) = 1050"
proof -
  note t1 = spawn_gate_interval [of 1050 "sampleFrame2 0 1.3 rnd0"
      "init2\<lparr>distanceCovered2 := 1050\<rparr>" "cubeEngine 0.25 0.25"]
  note t2 = spawn_gate_interval [of 1050 "sampleFrame2 0 1.25 rnd0"
      "init2\<lparr>distanceCovered2 := 1050\<rparr>" "cubeEngine 0.25 0.25"]
  have i: "currentSpawnInterval 1050 = 5854679515581644 / 4503599627370496"
    unfolding t1 [THEN conjunct1] by (simp add: constants2 double_unfold)
  have g1: "spawnCheck (sampleFrame2 0 1.3 rnd0) (init2\<lparr>distanceCovered2 := 1050\<rparr>) =
      (spawnObstacle2 rnd0 rndHalf rnd0 (init2\<lparr>distanceCovered2 := 1050\<rparr>))
        \<lparr>lastSpawnTime2 := 1.3\<rparr>"
    unfolding t1 [THEN conjunct2, THEN conjunct1]
    by (simp add: constants2 double_unfold init2_def sampleFrame2_def)
  have g2: "spawnCheck (sampleFrame2 0 1.25 rnd0) (init2\<lparr>distanceCovered2 := 1050\<rparr>) =
      init2\<lparr>distanceCovered2 := 1050\<rparr>"
    unfolding t2 [THEN conjunct2, THEN conjunct1]
    by (simp add: constants2 double_unfold init2_def sampleFrame2_def)
  have g3: "lastSpawnTime2 (animate2 (cubeEngine 0.25 0.25) (sampleFrame2 1 1.3 rnd0)
        (init2\<lparr>distanceCovered2 := 1045\<rparr>)) = 1.3"
    "distanceCovered2 (animate2 (cubeEngine 0.25 0.25) (sampleFrame2 1 1.3 rnd0)
        (init2\<lparr>distanceCovered2 := 1045\<rparr>)) = 1050"
    by (simp_all add: run_unfold)
  have p: "pending2 (spawnObstacle2 rnd0 rndHalf rnd0 (init2\<lparr>distanceCovered2 := 1050\<rparr>)) =
      [''jump1.glb'']"
    by (simp add: run_unfold)
  show ?thesis unfolding g1 g2 using i g3 p by simp
qed

text \<open>
  Claim C1. In the themed script, with \<^verbatim>\<open>THREE.Box3\<close> defined (the boxes of the claim
  exist): an obstacle whose type contains "tunnel" is never a collision, whatever the
  boxes do; for every other type, which is the "hoop" rule and the default rule of lines
  440-454, the collision is the overlap of the two boxes. A frame therefore ends with
  \<^verbatim>\<open>isGameOver\<close> true exactly when it was true before or some live obstacle that is not a
  tunnel overlaps the player. The "tunnel" test comes first in the code; no file name of
  the catalogue contains both words.
\<close>

theorem tunnel_passes_hoop_and_default_collide:
  assumes "Box3_defined E"
  shows "(type_includes (otype ob) ''tunnel'' \<longrightarrow> \<not> collisionDetected E ob)
       \<and> (\<not> type_includes (otype ob) ''tunnel'' \<longrightarrow>
            collisionDetected E ob = overlaps2 E ob)
       \<and> isGameOver2 (animate2 E f s) =
           (isGameOver2 s \<or>
            (\<exists>b\<in>set (obstacles2 s).
               overlaps2 E b \<and> \<not> type_includes (otype b) ''tunnel''))
       \<and> (\<forall>n\<in>set (concat (map snd obstacleThemes)).
            \<not> (type_includes (Some n) ''tunnel'' \<and> type_includes (Some n) ''hoop''))"
  using assms catalog_types_unambiguous
  by (simp add: animate2_isGameOver collisionDetected_iff)

theorem tunnel_passes_hoop_and_default_collide_witness:
  "Box3_defined (cubeEngine 0.25 0.25)
   \<and> overlaps2 (cubeEngine 0.25 0.25) tunnelAtPlayer
   \<and> \<not> collisionDetected (cubeEngine 0.25 0.25) tunnelAtPlayer
   \<and> \<not> isGameOver2 (animate2 (cubeEngine 0.25 0.25) (sampleFrame2 0.016 1 rnd0)
            (init2\<lparr>obstacles2 := [tunnelAtPlayer, hoopAhead]\<rparr>))
   \<and> isGameOver2 (animate2 (cubeEngine 0.25 0.25) (sampleFrame2 0.016 1 rnd0)
          (init2\<lparr>obstacles2 := [tunnelAtPlayer, hoopAtPlayer]\<rparr>))
   \<and> isGameOver2 (animate2 (cubeEngine 0.25 0.25) (sampleFrame2 0.016 1 rnd0)
          (init2\<lparr>obstacles2 := [tableAtPlayer]\<rparr>))"
proof -
  let ?E = "cubeEngine 0.25 0.25"
  let ?f = "sampleFrame2 0.016 1 rnd0"
  have E: "Box3_defined ?E" by (simp add: cubeEngine_def)
  have ov: "overlaps2 ?E tunnelAtPlayer" "overlaps2 ?E hoopAtPlayer" "overlaps2 ?E tableAtPlayer"
    "\<not> overlaps2 ?E hoopAhead"
    by (simp_all add: overlaps2_def intersectsBox_def samples sample_configurations
        playerPosition2_def)
  have ty: "type_includes (otype tunnelAtPlayer) ''tunnel''"
    "\<not> type_includes (otype hoopAtPlayer) ''tunnel''"
    "\<not> type_includes (otype tableAtPlayer) ''tunnel''"
    by (simp_all add: samples sample_types)
  have i: "\<not> isGameOver2 init2" by (simp add: init2_def)
  show ?thesis
    using tunnel_passes_hoop_and_default_collide [OF E, of tunnelAtPlayer ?f
        "init2\<lparr>obstacles2 := [tunnelAtPlayer, hoopAhead]\<rparr>"]
      tunnel_passes_hoop_and_default_collide [OF E, of tunnelAtPlayer ?f
        "init2\<lparr>obstacles2 := [tunnelAtPlayer, hoopAtPlayer]\<rparr>"]
      tunnel_passes_hoop_and_default_collide [OF E, of tunnelAtPlayer ?f
        "init2\<lparr>obstacles2 := [tableAtPlayer]\<rparr>"]
      E ov ty i
    by simp
qed

text \<open>
  Claim C8. With \<^verbatim>\<open>THREE.Box3\<close> defined, the collision loop of a frame is decided by the
  first obstacle of the array, in index order, whose collision is detected: without one
  the state is unchanged; with one, \<^verbatim>\<open>isGameOver\<close> becomes true, the player turns blue
  (0x0000ff), one "Game Over" line naming that obstacle's type is written, and no later
  obstacle is looked at.
\<close>

theorem first_collision_wins:
  assumes "Box3_defined E"
  shows "collisionLoop E obs s =
     (case List.find (collisionDetected E) obs of
        None \<Rightarrow> s
      | Some ob \<Rightarrow> s\<lparr>isGameOver2 := True, console2 := console2 s @ [GameOver (otype ob)],
                      playerColor2 := 0x0000ff\<rparr>)"
  using assms by (rule collisionLoop_find)

theorem first_collision_wins_witness:
  "Box3_defined (cubeEngine 0.25 0.25)
   \<and> collisionLoop (cubeEngine 0.25 0.25) [tunnelAtPlayer, hoopAhead, tableAtPlayer, hoopAtPlayer]
        (init2\<lparr>obstacles2 := [tunnelAtPlayer, hoopAhead, tableAtPlayer, hoopAtPlayer]\<rparr>)
     = init2\<lparr>obstacles2 := [tunnelAtPlayer, hoopAhead, tableAtPlayer, hoopAtPlayer],
              isGameOver2 := True, console2 := [GameOver (Some ''table.glb'')],
              playerColor2 := 0x0000ff\<rparr>"
proof -
  let ?E = "cubeEngine 0.25 0.25"
  have E: "Box3_defined ?E" by (simp add: cubeEngine_def)
  have ov: "overlaps2 ?E tunnelAtPlayer" "overlaps2 ?E hoopAtPlayer" "overlaps2 ?E tableAtPlayer"
    "\<not> overlaps2 ?E hoopAhead"
    by (simp_all add: overlaps2_def intersectsBox_def samples sample_configurations
        playerPosition2_def)
  have ty: "type_includes (otype tunnelAtPlayer) ''tunnel''"
    "\<not> type_includes (otype hoopAtPlayer) ''tunnel''"
    "\<not> type_includes (otype tableAtPlayer) ''tunnel''"
    by (simp_all add: samples sample_types)
  have c: "\<not> collisionDetected ?E tunnelAtPlayer" "\<not> collisionDetected ?E hoopAhead"
    "collisionDetected ?E tableAtPlayer"
    using ov ty by (simp_all add: collisionDetected_iff)
  have t: "otype tableAtPlayer = Some ''table.glb''" by (simp add: samples)
  show ?thesis
    using first_collision_wins [OF E, of "[tunnelAtPlayer, hoopAhead, tableAtPlayer, hoopAtPlayer]"
        "init2\<lparr>obstacles2 := [tunnelAtPlayer, hoopAhead, tableAtPlayer, hoopAtPlayer]\<rparr>"]
      E c t
    by (simp add: init2_def)
qed

text \<open>
  Claim C2. Once \<^verbatim>\<open>isGameOver\<close> is true, in either script: a frame returns the state
  it was given (no spawn, no motion, no removal, no distance); whatever events follow,
  frames, keys and load callbacks in any order, \<^verbatim>\<open>isGameOver\<close> stays true,
  \<^verbatim>\<open>distanceCovered\<close> and \<^verbatim>\<open>lastSpawnTime\<close> keep their values, the obstacles that were
  live stay as they were at the head of the array (an obstacle is only ever appended, by
  the callback of a load issued before), and no load is issued; in the lane script
  a key event returns the state it was given, so the lane index keeps its value.
\<close>

theorem game_over_is_final:
  "(isGameOver2 s \<longrightarrow>
      animate2 E f s = s \<and> isGameOver2 (run2 E es s)
      \<and> distanceCovered2 (run2 E es s) = distanceCovered2 s
      \<and> lastSpawnTime2 (run2 E es s) = lastSpawnTime2 s
      \<and> take (length (obstacles2 s)) (obstacles2 (run2 E es s)) = obstacles2 s
      \<and> length (pending2 (run2 E es s)) \<le> length (pending2 s))
   \<and> (isGameOver1 t \<longrightarrow>
      animate1 E' g t = t \<and> keydown1 key t = t \<and> isGameOver1 (run1 E' es' t)
      \<and> currentLaneIndex (run1 E' es' t) = currentLaneIndex t
      \<and> distanceCovered1 (run1 E' es' t) = distanceCovered1 t
      \<and> lastSpawnTime1 (run1 E' es' t) = lastSpawnTime1 t
      \<and> take (length (obstacles1 t)) (obstacles1 (run1 E' es' t)) = obstacles1 t
      \<and> length (pending1 (run1 E' es' t)) \<le> length (pending1 t))"
  using run2_frozen [of s E es] run1_frozen [of t E' es']
  by (auto simp: animate2_over animate1_over keydown1_over)

theorem game_over_is_final_witness:
  "isGameOver2 collided2
   \<and> animate2 (cubeEngine 0.25 0.25) (sampleFrame2 3 4 rnd0) collided2 = collided2
   \<and> isGameOver2 (run2 (cubeEngine 0.25 0.25)
        [Frame2 (sampleFrame2 3 4 rnd0), LoadSuccess2 0 rndHalf rnd0,
         Frame2 (sampleFrame2 3 7 rnd0)] collided2)
   \<and> distanceCovered2 (run2 (cubeEngine 0.25 0.25)
        [Frame2 (sampleFrame2 3 4 rnd0), LoadSuccess2 0 rndHalf rnd0,
         Frame2 (sampleFrame2 3 7 rnd0)] collided2) = distanceCovered2 collided2
   \<and> isGameOver1 collided1
   \<and> keydown1 ''ArrowLeft'' collided1 = collided1
   \<and> currentLaneIndex (run1 (cubeEngine 0.5 0.25)
        [KeyDown ''ArrowLeft'', Frame1 (sampleFrame1 3000), KeyDown ''ArrowRight''] collided1)
       = currentLaneIndex collided1"
  using game_over_is_final [of collided2 "cubeEngine 0.25 0.25" "sampleFrame2 3 4 rnd0"
      "[Frame2 (sampleFrame2 3 4 rnd0), LoadSuccess2 0 rndHalf rnd0,
        Frame2 (sampleFrame2 3 7 rnd0)]"
      collided1 "cubeEngine 0.5 0.25" "sampleFrame1 3000" "''ArrowLeft''"
      "[KeyDown ''ArrowLeft'', Frame1 (sampleFrame1 3000), KeyDown ''ArrowRight'']"]
    collided2_eval collided1_eval(1)
  by blast

text \<open>
  Claim C4. In every state the lane script reaches from its start, the lane index lies
  between 0 and the number of lanes minus 1. A left input at index 0 leaves the index
  unchanged, and so does a right input at the last index. While the game is running, the
  states in which key presses are lane inputs (line 59), any other left or right input
  shifts the index by exactly 1, a key press changes nothing but the index, and a key
  other than the two arrows changes nothing.
\<close>

theorem lane_index_clamped:
  "0 \<le> currentLaneIndex (run1 E es init1)
   \<and> currentLaneIndex (run1 E es init1) \<le> int (length lanePositions1) - 1
   \<and> (currentLaneIndex s = 0 \<longrightarrow>
        currentLaneIndex (keydown1 ''ArrowLeft'' s) = currentLaneIndex s)
   \<and> (currentLaneIndex s = int (length lanePositions1) - 1 \<longrightarrow>
        currentLaneIndex (keydown1 ''ArrowRight'' s) = currentLaneIndex s)
   \<and> (\<not> isGameOver1 s \<longrightarrow>
        (0 < currentLaneIndex s \<longrightarrow>
           currentLaneIndex (keydown1 ''ArrowLeft'' s) = currentLaneIndex s - 1)
      \<and> (currentLaneIndex s < int (length lanePositions1) - 1 \<longrightarrow>
           currentLaneIndex (keydown1 ''ArrowRight'' s) = currentLaneIndex s + 1)
      \<and> keydown1 key s = s\<lparr>currentLaneIndex := currentLaneIndex (keydown1 key s)\<rparr>
      \<and> (key \<noteq> ''ArrowLeft'' \<and> key \<noteq> ''ArrowRight'' \<longrightarrow> keydown1 key s = s))"
proof -
  have r: "0 \<le> currentLaneIndex (run1 E es init1) \<and>
           currentLaneIndex (run1 E es init1) \<le> int (length lanePositions1) - 1"
    by (rule run1_lane_range) (simp add: init1_def lanePositions1_def)
  have k: "keydown1 key s = s\<lparr>currentLaneIndex := currentLaneIndex (keydown1 key s)\<rparr>"
    by (simp add: keydown1_def)
  have n: "key \<noteq> ''ArrowLeft'' \<and> key \<noteq> ''ArrowRight'' \<longrightarrow> keydown1 key s = s"
    by (simp add: keydown1_def)
  show ?thesis using r k n keydown1_left [of s] keydown1_right [of s] by simp
qed

theorem lane_index_clamped_witness:
  "currentLaneIndex init1 = 1 \<and> \<not> isGameOver1 init1
   \<and> currentLaneIndex (keydown1 ''ArrowLeft'' init1) = 0
   \<and> currentLaneIndex (keydown1 ''ArrowLeft'' (keydown1 ''ArrowLeft'' init1)) = 0
   \<and> currentLaneIndex (keydown1 ''ArrowRight'' init1) = 2
   \<and> currentLaneIndex (keydown1 ''ArrowRight'' (keydown1 ''ArrowRight'' init1)) = 2
   \<and> keydown1 ''ArrowUp'' init1 = init1
   \<and> 0 \<le> currentLaneIndex (run1 (cubeEngine 0.5 0.25)
              [KeyDown ''ArrowLeft'', KeyDown ''ArrowLeft'', Frame1 (sampleFrame1 1000)] init1)"
proof -
  have i: "currentLaneIndex init1 = 1" "\<not> isGameOver1 init1" "length lanePositions1 = 3"
    by (simp_all add: init1_def lanePositions1_def)
  have l: "\<not> isGameOver1 (keydown1 ''ArrowLeft'' init1)"
    and r: "\<not> isGameOver1 (keydown1 ''ArrowRight'' init1)"
    by (simp_all add: keydown1_def init1_def)
  show ?thesis
    using lane_index_clamped [of "cubeEngine 0.5 0.25"
        "[KeyDown ''ArrowLeft'', KeyDown ''ArrowLeft'', Frame1 (sampleFrame1 1000)]" init1
        "''ArrowUp''"]
      lane_index_clamped [of "cubeEngine 0.5 0.25" "[]" "keydown1 ''ArrowLeft'' init1"
        "''ArrowUp''"]
      lane_index_clamped [of "cubeEngine 0.5 0.25" "[]" "keydown1 ''ArrowRight'' init1"
        "''ArrowUp''"]
      i l r
    by simp
qed

text \<open>
  Claim C7. The removal pass of the themed script (lines 468-474), run from the last index
  down, leaves exactly the obstacles that are not beyond the removal line
  (\<^verbatim>\<open>camera.position.z + 10\<close>), in their order, and takes the removed ones out of the
  scene as well; after a frame processed while the game is running, no live obstacle is
  beyond the line. The loop of the lane script (lines 119-140) does the same at its own
  line (\<^verbatim>\<open>camera.position.z + 5\<close>) for the obstacles it has just moved, on every running
  frame that ends without a collision. No entry is skipped in either loop. As a result no
  state that the themed script reaches from its start holds a live obstacle beyond the
  line, and none that the lane script reaches does either, provided an obstacle that
  intersects the player is itself not beyond the line.
\<close>

theorem offscreen_obstacles_removed:
  "obstacles2 (removeOffscreen s) =
     filter (\<lambda>ob. \<not> vz (position ob) > removalZ2) (obstacles2 s)
   \<and> scene2 (removeOffscreen s) =
     filter (\<lambda>j. j \<notin> set (map ident (filter (\<lambda>ob. vz (position ob) > removalZ2)
                                              (obstacles2 s))))
       (scene2 s)
   \<and> (\<not> isGameOver2 s \<longrightarrow>
        (\<forall>ob\<in>set (obstacles2 (animate2 E f s)). \<not> vz (position ob) > removalZ2))
   \<and> (\<not> isGameOver1 t \<and> \<not> isGameOver1 (animate1 E' g t) \<longrightarrow>
        obstacles1 (animate1 E' g t) = filter keep1 (map advance (obstacles1 t))
        \<and> scene1 (animate1 E' g t) =
            filter (\<lambda>j. j \<notin> set (map ident (filter (\<lambda>ob. \<not> keep1 (advance ob))
                                                   (obstacles1 t))))
              (scene1 t)
        \<and> (\<forall>ob\<in>set (obstacles1 (animate1 E' g t)). \<not> vz (position ob) > removalZPosition))
   \<and> (\<forall>b\<in>set (obstacles2 (run2 E es init2)). \<not> vz (position b) > removalZ2)
   \<and> (sane_engine E' \<longrightarrow>
        (\<forall>b\<in>set (obstacles1 (run1 E' es' init1)). \<not> vz (position b) > removalZPosition))"
proof -
  have "sane_engine E' \<longrightarrow>
        (\<forall>b\<in>set (obstacles1 (run1 E' es' init1)). \<not> vz (position b) > removalZPosition)"
  proof
    assume "sane_engine E'"
    from run1_within [OF this init1_within, of es']
    show "\<forall>b\<in>set (obstacles1 (run1 E' es' init1)). \<not> vz (position b) > removalZPosition"
      by (auto simp: within1_def)
  qed
  with removal_frames [of s E f t E' g] run2_never_behind [of E es] show ?thesis
    by blast
qed

theorem offscreen_obstacles_removed_witness:
  "\<not> isGameOver2 farState2
   \<and> obstacles2 (removeOffscreen farState2) = [hoopAhead]
   \<and> scene2 (removeOffscreen farState2) = [3]
   \<and> \<not> isGameOver1 farState1
   \<and> \<not> isGameOver1 (animate1 (cubeEngine 0.5 0.25) (sampleFrame1 1000) farState1)
   \<and> obstacles1 (animate1 (cubeEngine 0.5 0.25) (sampleFrame1 1000) farState1)
       = [advance (sampleObstacle1 1 2 (-5))]
   \<and> scene1 (animate1 (cubeEngine 0.5 0.25) (sampleFrame1 1000) farState1) = [1]
   \<and> sane_engine (cubeEngine 0.5 0.25)"
proof -
  have g: "\<not> isGameOver1 (animate1 (cubeEngine 0.5 0.25) (sampleFrame1 1000) farState1)"
    using farState1_eval(1,2) by (simp add: animate1_isGameOver)
  have sc2: "scene2 farState2 = [0, 3]" and sc1: "scene1 farState1 = [0, 1]"
    by (simp_all add: samples_far init2_def init1_def)
  show ?thesis
    using offscreen_obstacles_removed [of farState2 "cubeEngine 0.25 0.25"
        "sampleFrame2 0.016 1 rnd0" farState1 "cubeEngine 0.5 0.25" "sampleFrame1 1000"]
      g farState1_eval farState2_eval sc1 sc2 cubeEngine_sane
    by simp
qed

text \<open>
  Claim C6, amended. In the lane script \<^verbatim>\<open>obstacle.position.z += obstacleSpeed\<close> adds
  0.1. On a running frame without a collision every live obstacle is advanced (and then
  removed when it is beyond the removal line). On a running frame with a collision, the
  loop, which runs from the last index down, advances the obstacles from the end of the
  array down to the first one that collides and leaves the obstacles below it where they
  were. The themed script never changes the position of an obstacle: a running frame
  keeps the obstacles that are not beyond its removal line as they are and appends what
  it spawns.
\<close>

theorem obstacles_advance_until_collision:
  "vz (position (advance ob)) = vz (position ob) + obstacleSpeed \<and> obstacleSpeed = 0.1
   \<and> (\<not> isGameOver1 t \<and> (\<forall>b\<in>set (obstacles1 t). \<not> hits1 E t b) \<longrightarrow>
        obstacles1 (animate1 E g t) = filter keep1 (map advance (obstacles1 t)))
   \<and> (\<not> isGameOver1 t \<and> k < length (obstacles1 t) \<and> hits1 E t (obstacles1 t ! k)
        \<and> (\<forall>j. k < j \<and> j < length (obstacles1 t) \<longrightarrow> \<not> hits1 E t (obstacles1 t ! j)) \<longrightarrow>
        obstacles1 (animate1 E g t) =
          take k (obstacles1 t) @ advance (obstacles1 t ! k) #
            filter keep1 (map advance (drop (Suc k) (obstacles1 t))))
   \<and> (\<not> isGameOver2 s \<longrightarrow>
        (\<exists>new. obstacles2 (animate2 E' f s) =
           filter (\<lambda>b. \<not> vz (position b) > removalZ2) (obstacles2 s) @ new))"
proof (intro conjI impI)
  show "vz (position (advance ob)) = vz (position ob) + obstacleSpeed"
    by (simp add: advance_def)
  show "obstacleSpeed = 0.1" by (simp add: obstacleSpeed_def)
next
  assume a: "\<not> isGameOver1 t \<and> (\<forall>b\<in>set (obstacles1 t). \<not> hits1 E t b)"
  then have r: "\<not> isGameOver1 t" and nh: "\<forall>b\<in>set (obstacles1 t). \<not> hits1 E t b"
    by simp_all
  from animate1_nohit [OF r nh, of g]
  show "obstacles1 (animate1 E g t) = filter keep1 (map advance (obstacles1 t))" by simp
next
  assume a: "\<not> isGameOver1 t \<and> k < length (obstacles1 t) \<and> hits1 E t (obstacles1 t ! k)
        \<and> (\<forall>j. k < j \<and> j < length (obstacles1 t) \<longrightarrow> \<not> hits1 E t (obstacles1 t ! j))"
  then have r: "\<not> isGameOver1 t" and k: "k < length (obstacles1 t)"
    and h: "hits1 E t (obstacles1 t ! k)"
    and nh: "\<forall>j. k < j \<and> j < length (obstacles1 t) \<longrightarrow> \<not> hits1 E t (obstacles1 t ! j)"
    by simp_all
  from animate1_hit [OF r k h nh, of g]
  show "obstacles1 (animate1 E g t) =
          take k (obstacles1 t) @ advance (obstacles1 t ! k) #
            filter keep1 (map advance (drop (Suc k) (obstacles1 t)))" by simp
next
  assume "\<not> isGameOver2 s"
  from animate2_obstacles [OF this, of E' f]
  show "\<exists>new. obstacles2 (animate2 E' f s) =
           filter (\<lambda>b. \<not> vz (position b) > removalZ2) (obstacles2 s) @ new"
    by blast
qed

theorem obstacles_advance_until_collision_witness:
  "\<not> isGameOver1 farState1
   \<and> obstacles1 (animate1 (cubeEngine 0.5 0.25) (sampleFrame1 1000) farState1)
       = [advance (sampleObstacle1 1 2 (-5))]
   \<and> \<not> isGameOver1 nearState1
   \<and> hits1 (cubeEngine 0.5 0.25) nearState1 (obstacles1 nearState1 ! 1)
   \<and> obstacles1 (animate1 (cubeEngine 0.5 0.25) (sampleFrame1 1000) nearState1)
       = [sampleObstacle1 0 (-2) (-5), advance (sampleObstacle1 1 0 (-0.8))]
   \<and> \<not> isGameOver2 farState2"
proof -
  have n: "obstacles1 nearState1 = [sampleObstacle1 0 (-2) (-5), sampleObstacle1 1 0 (-0.8)]"
    by (simp add: nearState1_def init1_def)
  show ?thesis
    using obstacles_advance_until_collision [of _ farState1 "cubeEngine 0.5 0.25"
        "sampleFrame1 1000" 0 _ _ _]
      obstacles_advance_until_collision [of _ nearState1 "cubeEngine 0.5 0.25"
        "sampleFrame1 1000" 1 farState2 "cubeEngine 0.25 0.25" "sampleFrame2 0.016 1 rnd0"]
      farState1_eval farState2_eval(1) nearState1_eval n
    by simp
qed

text \<open>
  The claim as stated fails: in the lane script the collision of the obstacle at index 1
  ends the loop before the obstacle at index 0 is moved; in the themed script a running
  frame leaves every position as it was.
\<close>

theorem obstacle_not_advanced_counterexample:
  "\<not> isGameOver1 nearState1
   \<and> vz (position (obstacles1 (animate1 (cubeEngine 0.5 0.25) (sampleFrame1 1000) nearState1) ! 0))
       = vz (position (obstacles1 nearState1 ! 0))
   \<and> \<not> isGameOver2 (init2\<lparr>obstacles2 := [hoopAhead]\<rparr>)
   \<and> \<not> isGameOver2 (animate2 (cubeEngine 0.25 0.25) (sampleFrame2 0.016 1 rnd0)
          (init2\<lparr>obstacles2 := [hoopAhead]\<rparr>))
   \<and> map position (obstacles2 (animate2 (cubeEngine 0.25 0.25) (sampleFrame2 0.016 1 rnd0)
          (init2\<lparr>obstacles2 := [hoopAhead]\<rparr>)))
       = map position (obstacles2 (init2\<lparr>obstacles2 := [hoopAhead]\<rparr>))"
proof -
  have a: "obstacles1 (animate1 (cubeEngine 0.5 0.25) (sampleFrame1 1000) nearState1) ! 0
           = sampleObstacle1 0 (-2) (-5)"
    using collided1_eval(3)
    by (simp add: samples1 samples constants1 animate1_def advance_def intersectsBox_def Let_def)
  have b: "obstacles2 (animate2 (cubeEngine 0.25 0.25) (sampleFrame2 0.016 1 rnd0)
          (init2\<lparr>obstacles2 := [hoopAhead]\<rparr>)) = [hoopAhead]"
    and c: "\<not> isGameOver2 (animate2 (cubeEngine 0.25 0.25) (sampleFrame2 0.016 1 rnd0)
          (init2\<lparr>obstacles2 := [hoopAhead]\<rparr>))"
    by (simp_all add: frame2_unfold samples constants2 sample_configurations sample_types
        collisionDetected_iff overlaps2_def intersectsBox_def)
  show ?thesis using a b c nearState1_eval(1) by (simp add: nearState1_def init1_def init2_def)
qed

text \<open>
  Claim C10, amended. In every state the themed script reaches, each live obstacle has its
  x among \<^verbatim>\<open>lanePositions\<close>, its y equal to the \<^verbatim>\<open>positionY\<close> of the configuration of
  its type, and its z from -70 to -20, both ends allowed (\<^verbatim>\<open>-Math.random() * 50 - 20\<close>
  is -20 when the random number is 0); an obstacle that is live later is either one that
  was live before, unchanged, or a newer object. In every state the lane script reaches,
  each live obstacle has its x among \<^verbatim>\<open>lanePositions\<close> and y = 0.5; an obstacle that is
  live later has the x and y it had before (only z moves) or is a newer object. The
  identities of the live obstacles are distinct, so these statements follow one object.
\<close>

theorem obstacles_keep_their_lane:
  "(\<forall>b\<in>set (obstacles2 (run2 E es init2)). placed2 b)
   \<and> idents_ok (obstacles2 (run2 E es init2)) (nextIdent2 (run2 E es init2))
   \<and> (\<forall>c\<in>set (obstacles2 (run2 E es' s)). c \<in> set (obstacles2 s) \<or> nextIdent2 s \<le> ident c)
   \<and> (\<forall>b\<in>set (obstacles1 (run1 E' fs init1)). placed1 b)
   \<and> idents_ok (obstacles1 (run1 E' fs init1)) (nextIdent1 (run1 E' fs init1))
   \<and> (\<forall>c\<in>set (obstacles1 (run1 E' fs' t)).
        (\<exists>b\<in>set (obstacles1 t). same_lane b c) \<or> nextIdent1 t \<le> ident c)"
  using run2_inv2 [OF init2_inv2, of E es] run2_track [of E es' s]
    run1_inv1 [OF init1_inv1, of E' fs] run1_track [of E' fs' t]
  unfolding inv2_def inv1_def by blast

theorem obstacles_keep_their_lane_witness:
  "obstacles2 (run2 (cubeEngine 0.25 0.25)
      [Frame2 (sampleFrame2 3 3 rnd0), LoadSuccess2 0 rndHalf rnd0] init2)
     = [sampleObstacle 0 ''jump1.glb'' 0 (-20)]
   \<and> placed2 (sampleObstacle 0 ''jump1.glb'' 0 (-20))
   \<and> obstacles1 (run1 (cubeEngine 0.5 0.25)
      [Frame1 (sampleFrame1 2001), LoadSuccess1 0, Frame1 (sampleFrame1 2002)] init1)
     = [advance (sampleObstacle1 0 0 (-20))]
   \<and> placed1 (advance (sampleObstacle1 0 0 (-20)))
   \<and> same_lane (sampleObstacle1 1 0 (-0.8)) (obstacles1 collided1 ! 1)"
proof -
  note t = obstacles_keep_their_lane [of "cubeEngine 0.25 0.25"
      "[Frame2 (sampleFrame2 3 3 rnd0), LoadSuccess2 0 rndHalf rnd0]" "[]" init2
      "cubeEngine 0.5 0.25"
      "[Frame1 (sampleFrame1 2001), LoadSuccess1 0, Frame1 (sampleFrame1 2002)]"
      "[Frame1 (sampleFrame1 1000)]" nearState1]
  from t have "\<forall>b\<in>set (obstacles2 (run2 (cubeEngine 0.25 0.25)
      [Frame2 (sampleFrame2 3 3 rnd0), LoadSuccess2 0 rndHalf rnd0] init2)). placed2 b"
    by (rule conjunct1)
  then have a: "placed2 (sampleObstacle 0 ''jump1.glb'' 0 (-20))"
    unfolding spawn_run2_eval by simp
  from t have "\<forall>b\<in>set (obstacles1 (run1 (cubeEngine 0.5 0.25)
      [Frame1 (sampleFrame1 2001), LoadSuccess1 0, Frame1 (sampleFrame1 2002)] init1)). placed1 b"
    by (elim conjE)
  then have b: "placed1 (advance (sampleObstacle1 0 0 (-20)))"
    unfolding spawn_run1_eval by simp
  have c: "same_lane (sampleObstacle1 1 0 (-0.8)) (obstacles1 collided1 ! 1)"
    by (simp add: same_lane_def samples1 samples constants1 animate1_def advance_def
        intersectsBox_def Let_def)
  show ?thesis using a b c spawn_run2_eval spawn_run1_eval by simp
qed

text \<open>
  The claim as stated fails at the upper end of the band: a spawn whose random number for
  the depth is 0 is placed at z = -20, which is not below -20.
\<close>

theorem spawn_depth_counterexample:
  "vz (position (obstacles2 (run2 (cubeEngine 0.25 0.25)
      [Frame2 (sampleFrame2 3 3 rnd0), LoadSuccess2 0 rndHalf rnd0] init2) ! 0)) = - 20
   \<and> \<not> (- 70 \<le> vz (position (obstacles2 (run2 (cubeEngine 0.25 0.25)
            [Frame2 (sampleFrame2 3 3 rnd0), LoadSuccess2 0 rndHalf rnd0] init2) ! 0))
        \<and> vz (position (obstacles2 (run2 (cubeEngine 0.25 0.25)
            [Frame2 (sampleFrame2 3 3 rnd0), LoadSuccess2 0 rndHalf rnd0] init2) ! 0)) < - 20)"
  unfolding spawn_run2_eval by (simp add: sampleObstacle_def)

text \<open>
  Claim C5. With a cap of 5 spawns per theme (line 311), the sixth spawn counted within a
  theme is to occur under the next theme. The script tests the cap when
  \<^verbatim>\<open>spawnObstacle\<close> is called (line 316) and counts a spawn of a model that is not
  cached only when its load succeeds (line 383). In the run \<open>raceEvents\<close> four spawns are
  counted, then two frames each pass the cap test and ask for a model that is still
  loading, then both loads succeed: the script counts six spawns in the theme of index 0,
  above its own \<^verbatim>\<open>maxObstaclesPerTheme\<close>, the sixth obstacle is a model of that theme,
  and the theme has not moved to index 1.
\<close>

theorem sixth_spawn_counted_in_same_theme:
  "obstaclesSpawnedInCurrentTheme (run2 (cubeEngine 0.25 0.25) raceEvents init2) = 6
   \<and> maxObstaclesPerTheme = 5
   \<and> currentThemeIndex (run2 (cubeEngine 0.25 0.25) raceEvents init2) = 0
   \<and> currentThemeName (run2 (cubeEngine 0.25 0.25) raceEvents init2) = ''jumps''
   \<and> map otype (obstacles2 (run2 (cubeEngine 0.25 0.25) raceEvents init2)) =
       [Some ''jump1.glb'', Some ''jump1.glb'', Some ''jump1.glb'', Some ''jump1.glb'',
        Some ''jump2.glb'', Some ''jump2.glb'']
   \<and> currentThemeIndex (run2 (cubeEngine 0.25 0.25) raceEvents init2) \<noteq>
       (currentThemeIndex init2 + 1) mod length themeKeys"
  using race_eval
  by (simp add: init2_def themeKeys_def obstacleThemes_def maxObstaclesPerTheme_def)

text \<open>
  Claim C9, amended. The failure callback of a load writes one line to the console and
  does nothing else: no obstacle is added to the live set or to the scene, no load is
  issued again, and \<^verbatim>\<open>isGameOver\<close>, \<^verbatim>\<open>distanceCovered\<close>, \<^verbatim>\<open>lastSpawnTime\<close>, the theme
  index and the theme's counter keep the values they had when the callback ran. What the
  spawn attempt did before the load was issued stays: in the themed script a call of
  \<^verbatim>\<open>spawnObstacle\<close> whose load fails leaves the state that the theme switch at its head
  produced, plus the console line; in the lane script it leaves the state it was called
  in, plus the console line. (The frame that called it has set \<^verbatim>\<open>lastSpawnTime\<close>.)
\<close>

theorem failed_load_only_logs:
  "isGameOver2 (loadError2 k s) = isGameOver2 s
   \<and> distanceCovered2 (loadError2 k s) = distanceCovered2 s
   \<and> lastSpawnTime2 (loadError2 k s) = lastSpawnTime2 s
   \<and> currentThemeIndex (loadError2 k s) = currentThemeIndex s
   \<and> obstaclesSpawnedInCurrentTheme (loadError2 k s) = obstaclesSpawnedInCurrentTheme s
   \<and> obstacles2 (loadError2 k s) = obstacles2 s
   \<and> scene2 (loadError2 k s) = scene2 s
   \<and> (k < length (pending2 s) \<longrightarrow>
        console2 (loadError2 k s) = console2 s @ [LoadFailed (pending2 s ! k)]
        \<and> pending2 (loadError2 k s) = splice1 k (pending2 s))
   \<and> (pending2 (spawnObstacle2 rm rl rz s) = pending2 s @ [name] \<longrightarrow>
        loadError2 (length (pending2 s)) (spawnObstacle2 rm rl rz s) =
          (switchTheme s)\<lparr>console2 := console2 s @ [LoadFailed name]\<rparr>)
   \<and> loadError1 (length (pending1 t)) (spawnObstacle1 rl' rm' t) =
        t\<lparr>console1 := console1 t @
             [LoadFailed (obstacleModelPath @
                obstacleModelFiles1 ! random_index rm' (length obstacleModelFiles1))]\<rparr>"
  using loadError2_kept [of k s] loadError2_log [of k s] failed_attempt2 [of rm rl rz s name]
    failed_attempt1 [of t rl' rm']
  by simp

theorem failed_load_only_logs_witness:
  "pending2 (spawnObstacle2 rnd0 rndHalf rnd0 init2) = pending2 init2 @ [''jump1.glb'']
   \<and> loadError2 0 (spawnObstacle2 rnd0 rndHalf rnd0 init2)
       = init2\<lparr>console2 := [LoadFailed ''jump1.glb'']\<rparr>
   \<and> console2 (loadError2 0 (init2\<lparr>pending2 := [''table.glb'']\<rparr>)) = [LoadFailed ''table.glb'']
   \<and> pending2 (loadError2 0 (init2\<lparr>pending2 := [''table.glb'']\<rparr>)) = []"
proof -
  have p: "pending2 (spawnObstacle2 rnd0 rndHalf rnd0 init2) = pending2 init2 @ [''jump1.glb'']"
    by (simp add: run_unfold)
  have sw: "switchTheme init2 = init2" by (simp add: switchTheme_def init2_def constants2)
  have e: "pending2 init2 = []" "console2 init2 = []" by (simp_all add: init2_def)
  from failed_load_only_logs [of 0 "init2\<lparr>pending2 := [''table.glb'']\<rparr>"]
  have a: "console2 (loadError2 0 (init2\<lparr>pending2 := [''table.glb'']\<rparr>)) = [LoadFailed ''table.glb'']"
    "pending2 (loadError2 0 (init2\<lparr>pending2 := [''table.glb'']\<rparr>)) = []"
    by (simp_all add: init2_def splice1_def)
  from failed_load_only_logs [of 0 init2 rnd0 rndHalf rnd0 "''jump1.glb''"] p
  have b: "loadError2 0 (spawnObstacle2 rnd0 rndHalf rnd0 init2)
       = init2\<lparr>console2 := [LoadFailed ''jump1.glb'']\<rparr>"
    unfolding sw e by simp
  show ?thesis using p a b by simp
qed

text \<open>
  The claim as stated fails for the spawn attempt as a whole: with five spawns counted, the
  next attempt switches the theme and resets the counter before it asks for the model, and
  the frame sets \<^verbatim>\<open>lastSpawnTime\<close>; the load fails, and the three values have changed.
\<close>

theorem failed_spawn_changes_state_counterexample:
  "obstaclesSpawnedInCurrentTheme (run2 (cubeEngine 0.25 0.25) fiveSpawns init2) = 5
   \<and> obstaclesSpawnedInCurrentTheme
       (run2 (cubeEngine 0.25 0.25) (fiveSpawns @ failedSpawn) init2) = 0
   \<and> currentThemeIndex (run2 (cubeEngine 0.25 0.25) fiveSpawns init2) = 0
   \<and> currentThemeIndex (run2 (cubeEngine 0.25 0.25) (fiveSpawns @ failedSpawn) init2) = 1
   \<and> lastSpawnTime2 (run2 (cubeEngine 0.25 0.25) fiveSpawns init2) = 15
   \<and> lastSpawnTime2 (run2 (cubeEngine 0.25 0.25) (fiveSpawns @ failedSpawn) init2) = 18
   \<and> console2 (run2 (cubeEngine 0.25 0.25) (fiveSpawns @ failedSpawn) init2)
       = [LoadFailed ''CoveredTunnel.glb'']
   \<and> obstacles2 (run2 (cubeEngine 0.25 0.25) (fiveSpawns @ failedSpawn) init2)
       = obstacles2 (run2 (cubeEngine 0.25 0.25) fiveSpawns init2)"
  using failed_eval by simp

end
